theory Spec2Isabelle
  imports Main "HOL-Library.Word"
begin

unbundle bit_operations_syntax

section \<open>Machine types\<close>

text \<open>
  The kernels of \<^verbatim>\<open>jaxlib/cublas.cc\<close> run on a 64-bit host: \<^verbatim>\<open>int\<close> is 32 bits wide,
  \<^verbatim>\<open>size_t\<close> and every pointer (\<^verbatim>\<open>void*\<close>, \<^verbatim>\<open>cudaStream_t\<close>, \<^verbatim>\<open>cublasHandle_t\<close>) 64 bits.
  Arithmetic on \<^verbatim>\<open>int\<close> wraps around in the model (the C++ leaves signed overflow
  undefined; the compiled code wraps); the null pointer is \<open>0\<close>.
\<close>

type_synonym c_int = "32 word"
type_synonym size_t = "64 word"
type_synonym ptr = "64 word"
type_synonym cudaStream_t = "64 word"
type_synonym cublasHandle_t = "64 word"
type_synonym byte = "8 word"

section \<open>Element types\<close>

text \<open>\<^verbatim>\<open>enum class Type { F32, F64, C64, C128 }\<close>: the set of types known to the library.\<close>

datatype Type = F32 | F64 | C64 | C128

text \<open>
  An \<^verbatim>\<open>enum class\<close> is held in memory as an \<^verbatim>\<open>int\<close>, the enumerators numbered from 0
  in the order of their declaration. A descriptor that arrives as bytes can hold any
  \<^verbatim>\<open>int\<close> in that place, so the fields of a descriptor are kept as the \<^verbatim>\<open>int\<close> stored
  and read back with \<open>Type_of_int\<close>.
\<close>

fun int_of_Type :: "Type \<Rightarrow> c_int" where
  "int_of_Type F32 = 0"
| "int_of_Type F64 = 1"
| "int_of_Type C64 = 2"
| "int_of_Type C128 = 3"

definition Type_of_int :: "c_int \<Rightarrow> Type option" where
  "Type_of_int i =
     (if i = 0 then Some F32 else if i = 1 then Some F64
      else if i = 2 then Some C64 else if i = 3 then Some C128 else None)"

text \<open>
  \<^verbatim>\<open>DtypeToType\<close>: a NumPy dtype is looked up by its kind character and its item size;
  any other dtype raises \<^verbatim>\<open>std::invalid_argument\<close>.
\<close>

datatype exn = invalid_argument

definition DtypeToType :: "char \<times> int \<Rightarrow> exn + Type" where
  "DtypeToType np_type =
     (if np_type = (CHR ''f'', 4) then Inr F32
      else if np_type = (CHR ''f'', 8) then Inr F64
      else if np_type = (CHR ''c'', 8) then Inr C64
      else if np_type = (CHR ''c'', 16) then Inr C128
      else Inl invalid_argument)"

text \<open>
  \<^verbatim>\<open>SizeOfType\<close>: \<^verbatim>\<open>sizeof\<close> of \<^verbatim>\<open>float\<close>, \<^verbatim>\<open>double\<close>, \<^verbatim>\<open>cuComplex\<close> and
  \<^verbatim>\<open>cuDoubleComplex\<close>, returned as an \<^verbatim>\<open>int\<close>. The \<^verbatim>\<open>switch\<close> has no \<^verbatim>\<open>default\<close>: for a
  stored value that is none of the four enumerators the function returns nothing
  defined, which is why the dispatchers below have no result for such a descriptor.
\<close>

fun SizeOfType :: "Type \<Rightarrow> c_int" where
  "SizeOfType F32 = 4"
| "SizeOfType F64 = 8"
| "SizeOfType C64 = 8"
| "SizeOfType C128 = 16"

section \<open>The vendor library, as the kernels call it\<close>

text \<open>
  The calls the kernels issue to cuBLAS and to the CUDA runtime, each with the
  arguments the source passes. \<^verbatim>\<open>cudaMemcpyAsync\<close> reads device memory (\<open>Device\<close>, the
  source address) or a host array, which is passed here by its contents (\<open>Host\<close>).
  The four typed routines of each batched operation (\<^verbatim>\<open>cublasStrsmBatched\<close>,
  \<^verbatim>\<open>cublasDtrsmBatched\<close>, \<^verbatim>\<open>cublasCtrsmBatched\<close>, \<^verbatim>\<open>cublasZtrsmBatched\<close>, and the same for
  \<^verbatim>\<open>getrf\<close>) are one constructor that carries the element type; the scalar \<^verbatim>\<open>alpha\<close> of
  \<^verbatim>\<open>trsm\<close> is the constant one and is left out.
\<close>

datatype src = Device ptr | Host "ptr list"

datatype cudaMemcpyKind = cudaMemcpyHostToDevice | cudaMemcpyDeviceToDevice

datatype call =
    cublasCreate
  | cublasSetStream cublasHandle_t cudaStream_t
  | cudaMemcpyAsync ptr src size_t cudaMemcpyKind cudaStream_t
  | cudaStreamSynchronize cudaStream_t
  | cublasXtrsmBatched Type cublasHandle_t c_int c_int c_int c_int c_int c_int ptr c_int ptr c_int c_int
  | cublasXgetrfBatched Type cublasHandle_t c_int ptr c_int ptr ptr c_int

text \<open>
  \<^verbatim>\<open>absl::Status\<close>: ok, or an error that carries a message. The two messages of the
  kernels: the descriptor's size does not match, or a vendor call returned a status
  other than success (the message names the call and the status).
\<close>

datatype message = Invalid_descriptor_size | Vendor_call_failed call c_int

datatype Status = OkStatus | InternalError message

text \<open>
  What the vendor library answers is not the kernels' to decide, so it is a parameter:
  the status each call returns, the handle \<^verbatim>\<open>cublasCreate\<close> stores through its
  argument, and the per-matrix \<^verbatim>\<open>info\<close> values a factorisation writes, each as a
  function of the calls issued so far. Status \<open>0\<close> is success
  (\<^verbatim>\<open>CUBLAS_STATUS_SUCCESS\<close>, \<^verbatim>\<open>cudaSuccess\<close>).
\<close>

record vendor =
  status_of :: "call list \<Rightarrow> call \<Rightarrow> c_int"
  new_handle :: "call list \<Rightarrow> cublasHandle_t"
  getrf_info :: "call list \<Rightarrow> c_int list"

text \<open>
  The state a kernel runs in: the pool's \<^verbatim>\<open>handles_\<close> (a map from a stream to the
  vector of its idle handles; \<open>pool_handles\<close> here, since a name cannot end in an
  underscore), the stream each library handle is bound to, the arrays of
  pointers and of \<^verbatim>\<open>info\<close> values that device memory holds at an address, and the calls
  issued so far, the oldest first. The contents of the matrices are not modelled.
\<close>

record world =
  pool_handles :: "cudaStream_t \<rightharpoonup> cublasHandle_t list"
  stream_of :: "cublasHandle_t \<Rightarrow> cudaStream_t"
  ptr_arrays :: "ptr \<rightharpoonup> ptr list"
  info_arrays :: "ptr \<rightharpoonup> c_int list"
  issued :: "call list"

text \<open>
  The effect of a call that succeeded, as far as the state above records it:
  \<^verbatim>\<open>cublasSetStream\<close> binds the handle to the stream, a copy from a host array of
  pointers leaves that array at the destination, and a factorisation leaves its
  \<^verbatim>\<open>info\<close> values at the address it was given. \<^verbatim>\<open>cublasCreate\<close> changes nothing
  here: the handle it makes is bound to whatever stream the library binds a new handle
  to.
\<close>

fun effect :: "vendor \<Rightarrow> call list \<Rightarrow> call \<Rightarrow> world \<Rightarrow> world" where
  "effect v cs (cublasSetStream h s) w = w\<lparr>stream_of := (stream_of w)(h := s)\<rparr>"
| "effect v cs (cudaMemcpyAsync dst (Host ps) n k s) w = w\<lparr>ptr_arrays := (ptr_arrays w)(dst \<mapsto> ps)\<rparr>"
| "effect v cs (cublasXgetrfBatched t h n a lda ipiv info b) w =
     w\<lparr>info_arrays := (info_arrays w)(info \<mapsto> getrf_info v cs)\<rparr>"
| "effect v cs c w = w"

text \<open>
  Modelled from the spec: \<^verbatim>\<open>JAX_AS_STATUS\<close> is a macro of
  \<^verbatim>\<open>jaxlib/cuda_gpu_kernel_helpers.h\<close>, which is not among the sources. The spec:
  ``translate any vendor-reported failure into a descriptive status; on success return
  an empty/ok status''. \<open>vendor_call\<close> is \<^verbatim>\<open>JAX_AS_STATUS(call(...))\<close>: it issues the call
  and turns the status returned into an \<^verbatim>\<open>absl::Status\<close>.
\<close>

definition vendor_call :: "vendor \<Rightarrow> call \<Rightarrow> world \<Rightarrow> Status \<times> world" where
  "vendor_call v c w =
     (let st = status_of v (issued w) c;
          w' = w\<lparr>issued := issued w @ [c]\<rparr>
      in if st = 0 then (OkStatus, effect v (issued w) c w')
         else (InternalError (Vendor_call_failed c st), w'))"

section \<open>Descriptors\<close>

text \<open>
  The enumerators of the vendor's mode types, with the values of \<^verbatim>\<open>cublas_api.h\<close>.
\<close>

definition CUBLAS_SIDE_LEFT :: c_int where "CUBLAS_SIDE_LEFT = 0"
definition CUBLAS_SIDE_RIGHT :: c_int where "CUBLAS_SIDE_RIGHT = 1"
definition CUBLAS_FILL_MODE_LOWER :: c_int where "CUBLAS_FILL_MODE_LOWER = 0"
definition CUBLAS_FILL_MODE_UPPER :: c_int where "CUBLAS_FILL_MODE_UPPER = 1"
definition CUBLAS_OP_N :: c_int where "CUBLAS_OP_N = 0"
definition CUBLAS_OP_T :: c_int where "CUBLAS_OP_T = 1"
definition CUBLAS_OP_C :: c_int where "CUBLAS_OP_C = 2"
definition CUBLAS_DIAG_NON_UNIT :: c_int where "CUBLAS_DIAG_NON_UNIT = 0"
definition CUBLAS_DIAG_UNIT :: c_int where "CUBLAS_DIAG_UNIT = 1"

text \<open>
  \<^verbatim>\<open>struct TrsmBatchedDescriptor { Type type; int batch, m, n; cublasSideMode_t side;
  cublasFillMode_t uplo; cublasOperation_t trans; cublasDiagType_t diag; }\<close>
  and \<^verbatim>\<open>struct GetrfBatchedDescriptor { Type type; int batch, n; }\<close>. The fields carry
  the struct's name as a prefix, since a field name is a constant of the theory.
\<close>

record TrsmBatchedDescriptor =
  trsm_type :: c_int
  trsm_batch :: c_int
  trsm_m :: c_int
  trsm_n :: c_int
  trsm_side :: c_int
  trsm_uplo :: c_int
  trsm_trans :: c_int
  trsm_diag :: c_int

record GetrfBatchedDescriptor =
  getrf_type :: c_int
  getrf_batch :: c_int
  getrf_n :: c_int

subsection \<open>The descriptor codec\<close>

text \<open>
  Modelled from the spec: \<^verbatim>\<open>PackDescriptor\<close> and \<^verbatim>\<open>UnpackDescriptor\<close> are templates of
  \<^verbatim>\<open>jaxlib/kernel_helpers.h\<close>, which is not among the sources. The spec: encoding
  ``serializes a fixed-layout record directly (no variable-length fields, no endianness
  negotiation)''; decoding ``fails with a size-mismatch error if the byte length does not
  exactly match the expected fixed layout size; this is the only validation performed''.
  The layout is the struct's: its \<^verbatim>\<open>int\<close>-sized fields in the order of declaration, four
  bytes each, the least significant byte first.
\<close>

definition bytes_of_int :: "c_int \<Rightarrow> byte list" where
  "bytes_of_int i = [ucast i, ucast (drop_bit 8 i), ucast (drop_bit 16 i), ucast (drop_bit 24 i)]"

definition int_of_bytes :: "byte list \<Rightarrow> c_int" where
  "int_of_bytes bs = foldr (\<lambda>b i. ucast b OR push_bit 8 i) bs 0"

definition int_at :: "byte list \<Rightarrow> nat \<Rightarrow> c_int" where
  "int_at bs k = int_of_bytes (take 4 (drop (4 * k) bs))"

definition sizeof_TrsmBatchedDescriptor :: nat where
  "sizeof_TrsmBatchedDescriptor = 32"

definition sizeof_GetrfBatchedDescriptor :: nat where
  "sizeof_GetrfBatchedDescriptor = 12"

definition PackDescriptor_Trsm :: "TrsmBatchedDescriptor \<Rightarrow> byte list" where
  "PackDescriptor_Trsm d =
     concat (map bytes_of_int
       [trsm_type d, trsm_batch d, trsm_m d, trsm_n d,
        trsm_side d, trsm_uplo d, trsm_trans d, trsm_diag d])"

definition UnpackDescriptor_Trsm :: "byte list \<Rightarrow> message + TrsmBatchedDescriptor" where
  "UnpackDescriptor_Trsm opaque =
     (if length opaque \<noteq> sizeof_TrsmBatchedDescriptor then Inl Invalid_descriptor_size
      else Inr \<lparr>trsm_type = int_at opaque 0, trsm_batch = int_at opaque 1,
                trsm_m = int_at opaque 2, trsm_n = int_at opaque 3,
                trsm_side = int_at opaque 4, trsm_uplo = int_at opaque 5,
                trsm_trans = int_at opaque 6, trsm_diag = int_at opaque 7\<rparr>)"

definition PackDescriptor_Getrf :: "GetrfBatchedDescriptor \<Rightarrow> byte list" where
  "PackDescriptor_Getrf d =
     concat (map bytes_of_int [getrf_type d, getrf_batch d, getrf_n d])"

definition UnpackDescriptor_Getrf :: "byte list \<Rightarrow> message + GetrfBatchedDescriptor" where
  "UnpackDescriptor_Getrf opaque =
     (if length opaque \<noteq> sizeof_GetrfBatchedDescriptor then Inl Invalid_descriptor_size
      else Inr \<lparr>getrf_type = int_at opaque 0, getrf_batch = int_at opaque 1,
                getrf_n = int_at opaque 2\<rparr>)"

section \<open>The handle pool\<close>

text \<open>
  \<^verbatim>\<open>BlasHandlePool::Handle\<close>: a handle borrowed from the pool, with the stream it was
  borrowed for (the members \<^verbatim>\<open>handle_\<close> and \<^verbatim>\<open>stream_\<close>; the pool itself is the one
  instance of the process).
\<close>

record Handle =
  held_handle :: cublasHandle_t
  held_stream :: cudaStream_t

text \<open>
  \<^verbatim>\<open>pool->handles_[stream]\<close>: the vector of idle handles of a stream. \<^verbatim>\<open>operator[]\<close>
  enters an empty vector for a stream the map does not hold yet.
\<close>

definition idle :: "world \<Rightarrow> cudaStream_t \<Rightarrow> cublasHandle_t list" where
  "idle w stream = (case pool_handles w stream of None \<Rightarrow> [] | Some hs \<Rightarrow> hs)"

text \<open>
  \<^verbatim>\<open>BlasHandlePool::Borrow\<close>. With no idle handle for the stream a handle is created,
  otherwise the last idle one is taken; \<^verbatim>\<open>if (stream)\<close> then binds it to the stream.
  Each vendor call that fails ends the function with its status. The function holds the
  pool's mutex from its first statement to its return, so one call is modelled as one
  step on the state.
\<close>

definition Borrow :: "vendor \<Rightarrow> cudaStream_t \<Rightarrow> world \<Rightarrow> (message + Handle) \<times> world" where
  "Borrow v stream w =
     (let w0 = w\<lparr>pool_handles := (pool_handles w)(stream \<mapsto> idle w stream)\<rparr> in
      case (if idle w0 stream = [] then
              (case vendor_call v cublasCreate w0 of
                 (InternalError e, w1) \<Rightarrow> (Inl e, w1)
               | (OkStatus, w1) \<Rightarrow> (Inr (new_handle v (issued w0)), w1))
            else
              (Inr (last (idle w0 stream)),
               w0\<lparr>pool_handles := (pool_handles w0)(stream \<mapsto> butlast (idle w0 stream))\<rparr>)) of
        (Inl e, w1) \<Rightarrow> (Inl e, w1)
      | (Inr handle, w1) \<Rightarrow>
          (if stream \<noteq> 0 then
             (case vendor_call v (cublasSetStream handle stream) w1 of
                (InternalError e, w2) \<Rightarrow> (Inl e, w2)
              | (OkStatus, w2) \<Rightarrow> (Inr \<lparr>held_handle = handle, held_stream = stream\<rparr>, w2))
           else (Inr \<lparr>held_handle = handle, held_stream = stream\<rparr>, w1)))"

text \<open>
  Modelled from the spec: \<^verbatim>\<open>Return\<close>, which the destructor of a \<^verbatim>\<open>Handle\<close> calls, is a
  member of \<^verbatim>\<open>jaxlib/handle_pool.h\<close>, which is not among the sources. The spec:
  release ``(automatic, on scope exit) returns the handle to the idle set keyed by its
  current stream rather than destroying it''.
\<close>

definition Return :: "Handle \<Rightarrow> world \<Rightarrow> world" where
  "Return h w =
     w\<lparr>pool_handles :=
         (pool_handles w)(held_stream h \<mapsto> idle w (held_stream h) @ [held_handle h])\<rparr>"

text \<open>
  The order the pool keeps, from the empty pool with nothing issued on (section
  ``Borrowing a handle''): an idle handle is bound, in the library, to the stream it is
  filed under; and a handle is off the default stream, which is the null stream, only
  when a \<^verbatim>\<open>cublasSetStream\<close> among the calls issued has named it.
\<close>

definition pool_in_order :: "world \<Rightarrow> bool" where
  "pool_in_order w =
     ((\<forall>s. \<forall>h \<in> set (idle w s). stream_of w h = s)
      \<and> (\<forall>h. stream_of w h \<noteq> 0 \<longrightarrow> (\<exists>s. cublasSetStream h s \<in> set (issued w))))"

text \<open>
  What the library promises of the handle that \<^verbatim>\<open>cublasCreate\<close> makes next: it is a
  new one, which no \<^verbatim>\<open>cublasSetStream\<close> issued so far has named and which is none of
  the pool's.
\<close>

definition creates_new_handle :: "vendor \<Rightarrow> world \<Rightarrow> bool" where
  "creates_new_handle v w =
     ((\<forall>s. cublasSetStream (new_handle v (issued w)) s \<notin> set (issued w))
      \<and> (\<forall>s. new_handle v (issued w) \<notin> set (idle w s)))"

section \<open>Batch pointers\<close>

text \<open>
  Modelled from the spec: \<^verbatim>\<open>MakeBatchPointers\<close> is declared in the helpers' header and
  defined in a file that is not among the sources. The spec: it ``computes, for i in
  [0, batch_count), the address \<^verbatim>\<open>base_buffer + i * element_stride_bytes\<close>, writes these
  \<^verbatim>\<open>batch_count\<close> addresses into a host-allocated array, and issues an asynchronous
  host-to-device copy of that array into \<^verbatim>\<open>dest_device_array\<close> on \<^verbatim>\<open>stream\<close>''; it
  ``reports an error if ... the copy enqueue fails'' and otherwise returns the host
  array. \<^verbatim>\<open>batch\<close> and \<^verbatim>\<open>batch_elem_size\<close> are \<^verbatim>\<open>int\<close>s; an address is 8 bytes.
\<close>

definition sizeof_ptr :: size_t where
  "sizeof_ptr = 8"

definition batch_pointers :: "ptr \<Rightarrow> c_int \<Rightarrow> c_int \<Rightarrow> ptr list" where
  "batch_pointers buffer batch batch_elem_size =
     map (\<lambda>i. buffer + of_nat i * scast batch_elem_size) [0..<nat (sint batch)]"

definition MakeBatchPointers ::
  "vendor \<Rightarrow> cudaStream_t \<Rightarrow> ptr \<Rightarrow> ptr \<Rightarrow> c_int \<Rightarrow> c_int \<Rightarrow> world \<Rightarrow> (message + ptr list) \<times> world" where
  "MakeBatchPointers v stream buffer dev_ptrs batch batch_elem_size w =
     (let host_ptrs = batch_pointers buffer batch batch_elem_size in
      case vendor_call v
             (cudaMemcpyAsync dev_ptrs (Host host_ptrs) (sizeof_ptr * of_nat (length host_ptrs))
                cudaMemcpyHostToDevice stream) w of
        (InternalError e, w') \<Rightarrow> (Inl e, w')
      | (OkStatus, w') \<Rightarrow> (Inr host_ptrs, w'))"

section \<open>Batched triangular solve\<close>

text \<open>
  \<^verbatim>\<open>BuildTrsmBatchedDescriptor\<close>: the size of a batch-pointer scratch buffer and the
  packed descriptor. \<^verbatim>\<open>batch * sizeof(void*)\<close> is computed in \<^verbatim>\<open>size_t\<close>, to which the
  \<^verbatim>\<open>int\<close> is converted.
\<close>

definition BuildTrsmBatchedDescriptor ::
  "char \<times> int \<Rightarrow> c_int \<Rightarrow> c_int \<Rightarrow> c_int \<Rightarrow> bool \<Rightarrow> bool \<Rightarrow> bool \<Rightarrow> bool \<Rightarrow> bool
     \<Rightarrow> exn + (size_t \<times> byte list)" where
  "BuildTrsmBatchedDescriptor dtype batch m n left_side lower trans_a conj_a unit_diagonal =
     (let size = scast batch * sizeof_ptr in
      case DtypeToType dtype of
        Inl e \<Rightarrow> Inl e
      | Inr t \<Rightarrow>
          Inr (size, PackDescriptor_Trsm
            \<lparr>trsm_type = int_of_Type t, trsm_batch = batch, trsm_m = m, trsm_n = n,
             trsm_side = (if left_side then CUBLAS_SIDE_LEFT else CUBLAS_SIDE_RIGHT),
             trsm_uplo = (if lower then CUBLAS_FILL_MODE_LOWER else CUBLAS_FILL_MODE_UPPER),
             trsm_trans = (if trans_a then (if conj_a then CUBLAS_OP_C else CUBLAS_OP_T) else CUBLAS_OP_N),
             trsm_diag = (if unit_diagonal then CUBLAS_DIAG_UNIT else CUBLAS_DIAG_NON_UNIT)\<rparr>))"

text \<open>
  \<^verbatim>\<open>TrsmBatched_\<close> from the staging copy on (the statements after the handle is
  borrowed), for a descriptor whose element type is \<open>t\<close>. \<^verbatim>\<open>buffers\<close> is a \<^verbatim>\<open>void**\<close>: a
  pointer for every index the code reads. The sizes are products of \<^verbatim>\<open>int\<close>s; the byte
  count of the copy is converted to \<^verbatim>\<open>size_t\<close>.
\<close>

definition TrsmBatched_staged ::
  "vendor \<Rightarrow> cudaStream_t \<Rightarrow> (nat \<Rightarrow> ptr) \<Rightarrow> TrsmBatchedDescriptor \<Rightarrow> Type \<Rightarrow> Handle \<Rightarrow> world
     \<Rightarrow> Status \<times> world" where
  "TrsmBatched_staged v stream buffers d t handle w =
     (case (if buffers 2 \<noteq> buffers 1 then
              vendor_call v
                (cudaMemcpyAsync (buffers 2) (Device (buffers 1))
                   (scast (SizeOfType t * trsm_batch d * trsm_m d * trsm_n d))
                   cudaMemcpyDeviceToDevice stream) w
            else (OkStatus, w)) of
        (InternalError e, w1) \<Rightarrow> (InternalError e, w1)
      | (OkStatus, w1) \<Rightarrow>
          (let lda = (if trsm_side d = CUBLAS_SIDE_LEFT then trsm_m d else trsm_n d);
               ldb = trsm_m d in
           case MakeBatchPointers v stream (buffers 0) (buffers 3) (trsm_batch d)
                  (SizeOfType t * lda * lda) w1 of
             (Inl e, w2) \<Rightarrow> (InternalError e, w2)
           | (Inr a_batch_host, w2) \<Rightarrow>
               (case MakeBatchPointers v stream (buffers 2) (buffers 4) (trsm_batch d)
                       (SizeOfType t * trsm_m d * trsm_n d) w2 of
                  (Inl e, w3) \<Rightarrow> (InternalError e, w3)
                | (Inr b_batch_host, w3) \<Rightarrow>
                    (case vendor_call v (cudaStreamSynchronize stream) w3 of
                       (InternalError e, w4) \<Rightarrow> (InternalError e, w4)
                     | (OkStatus, w4) \<Rightarrow>
                         vendor_call v
                           (cublasXtrsmBatched t (held_handle handle) (trsm_side d) (trsm_uplo d)
                              (trsm_trans d) (trsm_diag d) (trsm_m d) (trsm_n d)
                              (buffers 3) lda (buffers 4) ldb (trsm_batch d)) w4))))"

text \<open>
  \<^verbatim>\<open>TrsmBatched_\<close> (\<open>TrsmBatched_impl\<close> here: a name cannot end in an underscore):
  unpack the descriptor, borrow a handle, run the steps above; the borrowed handle goes
  back to the pool when the function is left. When the handle is borrowed and the
  descriptor's stored type is none of the four enumerators there is no result
  (\<open>None\<close>): \<^verbatim>\<open>SizeOfType\<close> returns nothing defined for it, and every path from there
  calls it.
\<close>

definition TrsmBatched_impl ::
  "vendor \<Rightarrow> cudaStream_t \<Rightarrow> (nat \<Rightarrow> ptr) \<Rightarrow> byte list \<Rightarrow> world \<Rightarrow> (Status \<times> world) option" where
  "TrsmBatched_impl v stream buffers opaque w =
     (case UnpackDescriptor_Trsm opaque of
        Inl e \<Rightarrow> Some (InternalError e, w)
      | Inr d \<Rightarrow>
          (case Borrow v stream w of
             (Inl e, w1) \<Rightarrow> Some (InternalError e, w1)
           | (Inr handle, w1) \<Rightarrow>
               (case Type_of_int (trsm_type d) of
                  None \<Rightarrow> None
                | Some t \<Rightarrow>
                    (case TrsmBatched_staged v stream buffers d t handle w1 of
                       (s, w2) \<Rightarrow> Some (s, Return handle w2)))))"

text \<open>
  \<^verbatim>\<open>TrsmBatched\<close>, the entry point: \<^verbatim>\<open>XlaCustomCallStatusSetFailure\<close> writes the
  message into the status when the call failed. The status is \<open>None\<close> as long as
  nothing was written into it.
\<close>

definition TrsmBatched ::
  "vendor \<Rightarrow> cudaStream_t \<Rightarrow> (nat \<Rightarrow> ptr) \<Rightarrow> byte list \<Rightarrow> message option \<Rightarrow> world
     \<Rightarrow> (message option \<times> world) option" where
  "TrsmBatched v stream buffers opaque status w =
     (case TrsmBatched_impl v stream buffers opaque w of
        None \<Rightarrow> None
      | Some (OkStatus, w') \<Rightarrow> Some (status, w')
      | Some (InternalError e, w') \<Rightarrow> Some (Some e, w'))"

section \<open>Batched LU decomposition\<close>

definition BuildGetrfBatchedDescriptor ::
  "char \<times> int \<Rightarrow> c_int \<Rightarrow> c_int \<Rightarrow> exn + (size_t \<times> byte list)" where
  "BuildGetrfBatchedDescriptor dtype b n =
     (case DtypeToType dtype of
        Inl e \<Rightarrow> Inl e
      | Inr t \<Rightarrow>
          (let size = scast b * sizeof_ptr in
           Inr (size, PackDescriptor_Getrf
             \<lparr>getrf_type = int_of_Type t, getrf_batch = b, getrf_n = n\<rparr>)))"

text \<open>\<^verbatim>\<open>GetrfBatched_\<close> from the staging copy on.\<close>

definition GetrfBatched_staged ::
  "vendor \<Rightarrow> cudaStream_t \<Rightarrow> (nat \<Rightarrow> ptr) \<Rightarrow> GetrfBatchedDescriptor \<Rightarrow> Type \<Rightarrow> Handle \<Rightarrow> world
     \<Rightarrow> Status \<times> world" where
  "GetrfBatched_staged v stream buffers d t handle w =
     (case (if buffers 0 \<noteq> buffers 1 then
              vendor_call v
                (cudaMemcpyAsync (buffers 1) (Device (buffers 0))
                   (scast (SizeOfType t * getrf_batch d * getrf_n d * getrf_n d))
                   cudaMemcpyDeviceToDevice stream) w
            else (OkStatus, w)) of
        (InternalError e, w1) \<Rightarrow> (InternalError e, w1)
      | (OkStatus, w1) \<Rightarrow>
          (let ipiv = buffers 2; info = buffers 3 in
           case MakeBatchPointers v stream (buffers 1) (buffers 4) (getrf_batch d)
                  (SizeOfType t * getrf_n d * getrf_n d) w1 of
             (Inl e, w2) \<Rightarrow> (InternalError e, w2)
           | (Inr a_ptrs_host, w2) \<Rightarrow>
               (case vendor_call v (cudaStreamSynchronize stream) w2 of
                  (InternalError e, w3) \<Rightarrow> (InternalError e, w3)
                | (OkStatus, w3) \<Rightarrow>
                    vendor_call v
                      (cublasXgetrfBatched t (held_handle handle) (getrf_n d) (buffers 4) (getrf_n d)
                         ipiv info (getrf_batch d)) w3)))"

text \<open>\<^verbatim>\<open>GetrfBatched_\<close> and the entry point \<^verbatim>\<open>GetrfBatched\<close>, built as for the solve.\<close>

definition GetrfBatched_impl ::
  "vendor \<Rightarrow> cudaStream_t \<Rightarrow> (nat \<Rightarrow> ptr) \<Rightarrow> byte list \<Rightarrow> world \<Rightarrow> (Status \<times> world) option" where
  "GetrfBatched_impl v stream buffers opaque w =
     (case UnpackDescriptor_Getrf opaque of
        Inl e \<Rightarrow> Some (InternalError e, w)
      | Inr d \<Rightarrow>
          (case Borrow v stream w of
             (Inl e, w1) \<Rightarrow> Some (InternalError e, w1)
           | (Inr handle, w1) \<Rightarrow>
               (case Type_of_int (getrf_type d) of
                  None \<Rightarrow> None
                | Some t \<Rightarrow>
                    (case GetrfBatched_staged v stream buffers d t handle w1 of
                       (s, w2) \<Rightarrow> Some (s, Return handle w2)))))"

definition GetrfBatched ::
  "vendor \<Rightarrow> cudaStream_t \<Rightarrow> (nat \<Rightarrow> ptr) \<Rightarrow> byte list \<Rightarrow> message option \<Rightarrow> world
     \<Rightarrow> (message option \<times> world) option" where
  "GetrfBatched v stream buffers opaque status w =
     (case GetrfBatched_impl v stream buffers opaque w of
        None \<Rightarrow> None
      | Some (OkStatus, w') \<Rightarrow> Some (status, w')
      | Some (InternalError e, w') \<Rightarrow> Some (Some e, w'))"

section \<open>What a run issued\<close>

text \<open>
  The calls a run from \<open>w\<close> to \<open>w'\<close> issued, the oldest first; whether each call of a
  list, issued in turn after the calls \<open>cs\<close>, returned success; and the kinds of call
  the properties below single out.
\<close>

definition new_calls :: "world \<Rightarrow> world \<Rightarrow> call list" where
  "new_calls w w' = drop (length (issued w)) (issued w')"

fun all_succeed :: "vendor \<Rightarrow> call list \<Rightarrow> call list \<Rightarrow> bool" where
  "all_succeed v cs [] = True"
| "all_succeed v cs (c # rest) = (status_of v cs c = 0 \<and> all_succeed v (cs @ [c]) rest)"

fun is_set_stream :: "call \<Rightarrow> bool" where
  "is_set_stream (cublasSetStream h s) = True"
| "is_set_stream c = False"

fun is_device_copy :: "call \<Rightarrow> bool" where
  "is_device_copy (cudaMemcpyAsync dst s n cudaMemcpyDeviceToDevice st) = True"
| "is_device_copy c = False"

fun is_host_copy :: "call \<Rightarrow> bool" where
  "is_host_copy (cudaMemcpyAsync dst s n cudaMemcpyHostToDevice st) = True"
| "is_host_copy c = False"

text \<open>
  The calls that enqueue work on a stream or wait for it: the copies, the
  synchronisation and the batched routines (\<^verbatim>\<open>cublasCreate\<close> and \<^verbatim>\<open>cublasSetStream\<close>
  only prepare a handle).
\<close>

fun on_stream :: "call \<Rightarrow> bool" where
  "on_stream cublasCreate = False"
| "on_stream (cublasSetStream h s) = False"
| "on_stream c = True"

fun copy_size :: "call \<Rightarrow> size_t" where
  "copy_size (cudaMemcpyAsync dst s n k st) = n"
| "copy_size c = 0"

section \<open>The device memory a call writes\<close>

text \<open>
  A region of device memory: the address of its first byte and the number of its
  bytes. Two regions overlap when they have a byte in common; one lies within another
  when all its bytes are bytes of the other. The bytes of a region are counted on from
  its first address; a region that is \<open>allocated\<close> ends within the 64-bit address space.
\<close>

type_synonym region = "ptr \<times> nat"




text \<open>
  The regions a call writes, as the libraries document them. A copy writes the \<^verbatim>\<open>count\<close>
  bytes from its destination on. The solve overwrites the right-hand sides: the first
  \<^verbatim>\<open>batchCount\<close> pointers of the array \<^verbatim>\<open>Barray\<close>, read from device memory as the
  state holds it, each the start of a column-major matrix of \<^verbatim>\<open>n\<close> columns that are
  \<^verbatim>\<open>ldb\<close> elements apart. The factorisation overwrites the matrices that \<^verbatim>\<open>Aarray\<close>
  names (\<^verbatim>\<open>n\<close> columns, \<^verbatim>\<open>lda\<close> elements apart) and writes \<^verbatim>\<open>n\<close> pivots of type
  \<^verbatim>\<open>int\<close> for each matrix and one \<^verbatim>\<open>info\<close> value of type \<^verbatim>\<open>int\<close> for each matrix.
  The other calls write no device memory.
\<close>

definition elem_bytes :: "Type \<Rightarrow> nat" where
  "elem_bytes t = nat (sint (SizeOfType t))"

fun written :: "world \<Rightarrow> call \<Rightarrow> region list" where
  "written w (cudaMemcpyAsync dst s n k st) = [(dst, unat n)]"
| "written w (cublasXtrsmBatched t h sd ul tr dg m n a lda b ldb batch) =
     map (\<lambda>p. (p, elem_bytes t * (nat (sint ldb) * nat (sint n))))
       (take (nat (sint batch)) (case ptr_arrays w b of None \<Rightarrow> [] | Some ps \<Rightarrow> ps))"
| "written w (cublasXgetrfBatched t h n a lda ipiv info batch) =
     map (\<lambda>p. (p, elem_bytes t * (nat (sint lda) * nat (sint n))))
       (take (nat (sint batch)) (case ptr_arrays w a of None \<Rightarrow> [] | Some ps \<Rightarrow> ps))
     @ [(ipiv, 4 * (nat (sint n) * nat (sint batch))), (info, 4 * nat (sint batch))]"
| "written w c = []"











section \<open>Example inputs and the states they lead to\<close>

text \<open>
  The inputs the properties below are tried on. A vendor library whose every call
  succeeds, and whose factorisation reports the second matrix of the batch singular; one
  whose \<^verbatim>\<open>cublasCreate\<close> fails (status 1, \<^verbatim>\<open>CUBLAS_STATUS_NOT_INITIALIZED\<close>); one
  whose \<^verbatim>\<open>cudaStreamSynchronize\<close> fails.
\<close>

definition ok_vendor :: vendor where
  "ok_vendor = \<lparr>status_of = (\<lambda>cs c. 0), new_handle = (\<lambda>cs. 256), getrf_info = (\<lambda>cs. [0, 2])\<rparr>"

definition no_create_vendor :: vendor where
  "no_create_vendor =
     \<lparr>status_of = (\<lambda>cs c. if c = cublasCreate then 1 else 0), new_handle = (\<lambda>cs. 256),
      getrf_info = (\<lambda>cs. [])\<rparr>"

definition no_sync_vendor :: vendor where
  "no_sync_vendor =
     \<lparr>status_of = (\<lambda>cs c. case c of cudaStreamSynchronize s \<Rightarrow> 4 | _ \<Rightarrow> 0),
      new_handle = (\<lambda>cs. 256), getrf_info = (\<lambda>cs. [])\<rparr>"

text \<open>
  A library whose every call succeeds and that numbers the handles it creates by the
  calls issued so far, so that each of them is a new one.
\<close>

definition counting_vendor :: vendor where
  "counting_vendor =
     \<lparr>status_of = (\<lambda>cs c. 0), new_handle = (\<lambda>cs. 256 + of_nat (length cs)),
      getrf_info = (\<lambda>cs. [])\<rparr>"

text \<open>
  A state with an empty pool and nothing issued, and one whose pool holds an idle handle
  for the null stream and one for stream 7, both bound to stream 3 by the library.
\<close>

definition fresh_world :: world where
  "fresh_world =
     \<lparr>pool_handles = Map.empty, stream_of = (\<lambda>h. 0), ptr_arrays = Map.empty,
      info_arrays = Map.empty, issued = []\<rparr>"

definition stale_world :: world where
  "stale_world =
     \<lparr>pool_handles = [0 \<mapsto> [256], 7 \<mapsto> [257]], stream_of = (\<lambda>h. 3), ptr_arrays = Map.empty,
      info_arrays = Map.empty, issued = []\<rparr>"

text \<open>
  Five buffers at distinct addresses, 4096 bytes apart, and five of which the first two
  are one address (a factorisation in place).
\<close>

definition separate_buffers :: "nat \<Rightarrow> ptr" where
  "separate_buffers i = 4096 * (of_nat i + 1)"

definition inplace_buffers :: "nat \<Rightarrow> ptr" where
  "inplace_buffers i = (if i = 0 then 8192 else 4096 * (of_nat i + 1))"

text \<open>A solve and a factorisation of two 3-by-3 matrices of \<^verbatim>\<open>float\<close>.\<close>

definition example_trsm :: TrsmBatchedDescriptor where
  "example_trsm =
     \<lparr>trsm_type = int_of_Type F32, trsm_batch = 2, trsm_m = 3, trsm_n = 3,
      trsm_side = CUBLAS_SIDE_LEFT, trsm_uplo = CUBLAS_FILL_MODE_LOWER,
      trsm_trans = CUBLAS_OP_N, trsm_diag = CUBLAS_DIAG_NON_UNIT\<rparr>"

definition example_getrf :: GetrfBatchedDescriptor where
  "example_getrf = \<lparr>getrf_type = int_of_Type F32, getrf_batch = 2, getrf_n = 3\<rparr>"

text \<open>
  The states the example runs end in. After the solve on the separate buffers, with
  every call succeeding: the handle 256 was created, bound to stream 7 and went back to
  the pool; the right-hand sides were copied to the working buffer (72 bytes); the two
  arrays of pointers are in the scratch buffers.
\<close>

definition trsm_calls :: "call list" where
  "trsm_calls =
     [cublasCreate, cublasSetStream 256 7,
      cudaMemcpyAsync 12288 (Device 8192) 72 cudaMemcpyDeviceToDevice 7,
      cudaMemcpyAsync 16384 (Host [4096, 4132]) 16 cudaMemcpyHostToDevice 7,
      cudaMemcpyAsync 20480 (Host [12288, 12324]) 16 cudaMemcpyHostToDevice 7,
      cudaStreamSynchronize 7,
      cublasXtrsmBatched F32 256 0 0 0 0 3 3 16384 3 20480 3 2]"

definition trsm_world :: world where
  "trsm_world =
     \<lparr>pool_handles = [7 \<mapsto> [256]], stream_of = (\<lambda>h. 0)(256 := 7),
      ptr_arrays = [16384 \<mapsto> [4096, 4132], 20480 \<mapsto> [12288, 12324]],
      info_arrays = Map.empty, issued = trsm_calls\<rparr>"


text \<open>
  After the factorisation on the separate buffers, and after the factorisation in place
  (input and working buffer are one address, so nothing is copied).
\<close>

definition getrf_world :: world where
  "getrf_world =
     \<lparr>pool_handles = [7 \<mapsto> [256]], stream_of = (\<lambda>h. 0)(256 := 7),
      ptr_arrays = [20480 \<mapsto> [8192, 8228]], info_arrays = [16384 \<mapsto> [0, 2]],
      issued =
        [cublasCreate, cublasSetStream 256 7,
         cudaMemcpyAsync 8192 (Device 4096) 72 cudaMemcpyDeviceToDevice 7,
         cudaMemcpyAsync 20480 (Host [8192, 8228]) 16 cudaMemcpyHostToDevice 7,
         cudaStreamSynchronize 7,
         cublasXgetrfBatched F32 256 3 20480 3 12288 16384 2]\<rparr>"

definition getrf_inplace_world :: world where
  "getrf_inplace_world =
     \<lparr>pool_handles = [7 \<mapsto> [256]], stream_of = (\<lambda>h. 0)(256 := 7),
      ptr_arrays = [20480 \<mapsto> [8192, 8228]], info_arrays = [16384 \<mapsto> [0, 2]],
      issued =
        [cublasCreate, cublasSetStream 256 7,
         cudaMemcpyAsync 20480 (Host [8192, 8228]) 16 cudaMemcpyHostToDevice 7,
         cudaStreamSynchronize 7,
         cublasXgetrfBatched F32 256 3 20480 3 12288 16384 2]\<rparr>"

text \<open>After an invocation on stream 7 whose \<^verbatim>\<open>cublasCreate\<close> failed.\<close>

definition create_failed_world :: world where
  "create_failed_world = fresh_world\<lparr>pool_handles := [7 \<mapsto> []], issued := [cublasCreate]\<rparr>"

text \<open>
  After a handle was borrowed for the null stream and returned: the handle 256 idles
  for the null stream, bound to it.
\<close>

definition null_idle_world :: world where
  "null_idle_world = fresh_world\<lparr>pool_handles := [0 \<mapsto> [256]], issued := [cublasCreate]\<rparr>"
section \<open>Round trip and size check of the codec\<close>

lemma int_of_bytes_of_int: "int_of_bytes (bytes_of_int i) = i"
  unfolding int_of_bytes_def bytes_of_int_def
proof (rule bit_word_eqI)
  fix k :: nat
  assume "k < LENGTH(32)"
  then have k: "k < 32" by simp
  consider "k < 8" | "8 \<le> k" "k < 16" | "16 \<le> k" "k < 24" | "24 \<le> k"
    by linarith
  then show "bit (foldr (\<lambda>b i. ucast b OR push_bit 8 i)
        [ucast i :: byte, ucast (drop_bit 8 i), ucast (drop_bit 16 i), ucast (drop_bit 24 i)]
        (0::c_int)) k = bit i k"
    using k by cases (auto simp: bit_simps)
qed

lemma length_bytes_of_int [simp]: "length (bytes_of_int i) = 4"
  by (simp add: bytes_of_int_def)

lemma int_at_0 [simp]: "int_at (bytes_of_int i @ bs) 0 = i"
  by (simp add: int_at_def int_of_bytes_of_int)

lemma int_at_Suc [simp]: "int_at (bytes_of_int i @ bs) (Suc k) = int_at bs k"
  by (simp add: int_at_def)

lemma length_PackDescriptor_Trsm: "length (PackDescriptor_Trsm d) = sizeof_TrsmBatchedDescriptor"
  by (simp add: PackDescriptor_Trsm_def sizeof_TrsmBatchedDescriptor_def)

lemma length_PackDescriptor_Getrf: "length (PackDescriptor_Getrf d) = sizeof_GetrfBatchedDescriptor"
  by (simp add: PackDescriptor_Getrf_def sizeof_GetrfBatchedDescriptor_def)

lemma Unpack_Pack_Trsm: "UnpackDescriptor_Trsm (PackDescriptor_Trsm d) = Inr d"
  using int_at_0 [of _ "[]"]
  by (simp add: UnpackDescriptor_Trsm_def PackDescriptor_Trsm_def sizeof_TrsmBatchedDescriptor_def
      eval_nat_numeral)

lemma Unpack_Pack_Getrf: "UnpackDescriptor_Getrf (PackDescriptor_Getrf d) = Inr d"
  using int_at_0 [of _ "[]"]
  by (simp add: UnpackDescriptor_Getrf_def PackDescriptor_Getrf_def sizeof_GetrfBatchedDescriptor_def
      eval_nat_numeral)

text \<open>
  \<^bold>\<open>C2.\<close> Unpacking the bytes that packing a descriptor produced gives the descriptor
  back, field for field, for the descriptor of the solve and for that of the
  factorisation. \<^verbatim>\<open>PackDescriptor\<close> takes every value of the record, so the law has
  no side condition.
\<close>

theorem UnpackDescriptor_PackDescriptor:
  "UnpackDescriptor_Trsm (PackDescriptor_Trsm x) = Inr x
   \<and> UnpackDescriptor_Getrf (PackDescriptor_Getrf y) = Inr y"
proof
  show "UnpackDescriptor_Trsm (PackDescriptor_Trsm x) = Inr x"
    by (rule Unpack_Pack_Trsm)
  show "UnpackDescriptor_Getrf (PackDescriptor_Getrf y) = Inr y"
    by (rule Unpack_Pack_Getrf)
qed

text \<open>
  \<^bold>\<open>C3.\<close> A byte string whose length is not the size of the descriptor's layout is
  refused with the size-mismatch message, whatever its bytes are, and the dispatcher
  hands that message back with the state as it found it: no handle borrowed, no call
  issued, no buffer used. The length is all that is checked: a byte string of the right
  length always unpacks.
\<close>

theorem wrong_size_descriptor_refused:
  "(length opaque \<noteq> sizeof_TrsmBatchedDescriptor \<longrightarrow>
      UnpackDescriptor_Trsm opaque = Inl Invalid_descriptor_size
      \<and> TrsmBatched_impl v stream buffers opaque w = Some (InternalError Invalid_descriptor_size, w)
      \<and> TrsmBatched v stream buffers opaque status w = Some (Some Invalid_descriptor_size, w))
   \<and> (length opaque = sizeof_TrsmBatchedDescriptor \<longrightarrow> \<not> isl (UnpackDescriptor_Trsm opaque))
   \<and> (length opaque \<noteq> sizeof_GetrfBatchedDescriptor \<longrightarrow>
      UnpackDescriptor_Getrf opaque = Inl Invalid_descriptor_size
      \<and> GetrfBatched_impl v stream buffers opaque w = Some (InternalError Invalid_descriptor_size, w)
      \<and> GetrfBatched v stream buffers opaque status w = Some (Some Invalid_descriptor_size, w))
   \<and> (length opaque = sizeof_GetrfBatchedDescriptor \<longrightarrow> \<not> isl (UnpackDescriptor_Getrf opaque))"
  by (simp add: UnpackDescriptor_Trsm_def UnpackDescriptor_Getrf_def TrsmBatched_impl_def
      GetrfBatched_impl_def TrsmBatched_def GetrfBatched_def)

text \<open>
  The property on three byte strings: one of three bytes, which neither dispatcher
  accepts, and a packed descriptor of each kind.
\<close>

theorem wrong_size_descriptor_refused_witness:
  "length [1, 2, 3 :: byte] \<noteq> sizeof_TrsmBatchedDescriptor
   \<and> length [1, 2, 3 :: byte] \<noteq> sizeof_GetrfBatchedDescriptor
   \<and> TrsmBatched ok_vendor 7 separate_buffers [1, 2, 3] None stale_world
       = Some (Some Invalid_descriptor_size, stale_world)
   \<and> GetrfBatched ok_vendor 7 separate_buffers [1, 2, 3] None stale_world
       = Some (Some Invalid_descriptor_size, stale_world)
   \<and> length (PackDescriptor_Trsm example_trsm) = sizeof_TrsmBatchedDescriptor
   \<and> \<not> isl (UnpackDescriptor_Trsm (PackDescriptor_Trsm example_trsm))
   \<and> length (PackDescriptor_Getrf example_getrf) = sizeof_GetrfBatchedDescriptor
   \<and> \<not> isl (UnpackDescriptor_Getrf (PackDescriptor_Getrf example_getrf))"
  using wrong_size_descriptor_refused [of "[1, 2, 3]" ok_vendor 7 separate_buffers stale_world None]
    wrong_size_descriptor_refused [of "PackDescriptor_Trsm example_trsm"]
    wrong_size_descriptor_refused [of "PackDescriptor_Getrf example_getrf"]
  by (simp add: length_PackDescriptor_Trsm length_PackDescriptor_Getrf
      sizeof_TrsmBatchedDescriptor_def sizeof_GetrfBatchedDescriptor_def)

section \<open>Borrowing a handle\<close>

lemma effect_issued [simp]: "issued (effect v cs c w) = issued w"
  by (induction v cs c w rule: effect.induct) auto

lemma effect_pool_handles [simp]: "pool_handles (effect v cs c w) = pool_handles w"
  by (induction v cs c w rule: effect.induct) auto

lemma new_calls_append [simp]: "issued w' = issued w @ cs \<Longrightarrow> new_calls w w' = cs"
  by (simp add: new_calls_def)

lemma new_calls_same [simp]: "new_calls w w = []"
  by (simp add: new_calls_def)

lemmas example_defs =
  ok_vendor_def no_create_vendor_def no_sync_vendor_def fresh_world_def stale_world_def
  separate_buffers_def inplace_buffers_def example_trsm_def example_getrf_def
  CUBLAS_SIDE_LEFT_def CUBLAS_FILL_MODE_LOWER_def CUBLAS_OP_N_def CUBLAS_DIAG_NON_UNIT_def

text \<open>
  \<^verbatim>\<open>Borrow\<close> binds the handle under \<^verbatim>\<open>if (stream)\<close>. When the stream is not null and a
  handle is returned, \<^verbatim>\<open>cublasSetStream(handle, stream)\<close> was the last call issued and
  it succeeded, so the handle is bound to the stream supplied, whatever it was bound to
  before, and the \<^verbatim>\<open>Handle\<close> records that stream.
\<close>

lemma Borrow_binds_stream:
  assumes "stream \<noteq> 0" and "Borrow v stream w = (Inr h, w')"
  shows "stream_of w' (held_handle h) = stream \<and> held_stream h = stream
       \<and> issued w' \<noteq> [] \<and> last (issued w') = cublasSetStream (held_handle h) stream
       \<and> status_of v (butlast (issued w')) (last (issued w')) = 0"
proof -
  from assms obtain w1 where
    call: "vendor_call v (cublasSetStream (held_handle h) stream) w1 = (OkStatus, w')"
    and "held_stream h = stream"
    by (auto simp: Borrow_def Let_def split: if_splits prod.splits Status.splits sum.splits)
  moreover from call have "issued w' = issued w1 @ [cublasSetStream (held_handle h) stream]"
    and "status_of v (issued w1) (cublasSetStream (held_handle h) stream) = 0"
    and "stream_of w' (held_handle h) = stream"
    by (auto simp: vendor_call_def Let_def split: if_splits)
  ultimately show ?thesis by simp
qed

text \<open>
  The pool keeps its order. The empty pool with nothing issued has it; \<^verbatim>\<open>Borrow\<close>
  keeps it, whatever it returns, when a handle it creates is a new one; and so does
  \<^verbatim>\<open>Return\<close> of a handle that is bound to the stream it was borrowed for.
\<close>

lemma pool_in_order_fresh: "pool_in_order fresh_world"
  by (simp add: pool_in_order_def idle_def fresh_world_def)

lemma Borrow_streams:
  assumes "Borrow v stream w = (r, w')"
  shows "\<exists>cs. issued w' = issued w @ cs
           \<and> (stream_of w' = stream_of w
                \<or> (\<exists>h. stream_of w' = (stream_of w)(h := stream)
                         \<and> cublasSetStream h stream \<in> set cs
                         \<and> h = (if idle w stream = [] then new_handle v (issued w)
                                else last (idle w stream))))
           \<and> (\<forall>s. idle w' s
                     = (if s = stream \<and> idle w stream \<noteq> [] then butlast (idle w stream)
                        else idle w s))"
  using assms
  by (auto simp: Borrow_def vendor_call_def Let_def idle_def
      split: if_splits prod.splits Status.splits sum.splits)

lemma Borrow_keeps_order:
  assumes order: "pool_in_order w"
    and new: "idle w stream = [] \<longrightarrow> creates_new_handle v w"
  shows "pool_in_order (snd (Borrow v stream w))"
proof -
  obtain r w' where run: "Borrow v stream w = (r, w')"
    by (cases "Borrow v stream w")
  from order have filed: "\<And>s h. h \<in> set (idle w s) \<Longrightarrow> stream_of w h = s"
    and set: "\<And>h. stream_of w h \<noteq> 0 \<Longrightarrow> \<exists>s. cublasSetStream h s \<in> set (issued w)"
    by (simp_all add: pool_in_order_def)
  from Borrow_streams [OF run] obtain cs where
    cs: "issued w' = issued w @ cs"
    and streams: "stream_of w' = stream_of w
                \<or> (\<exists>h. stream_of w' = (stream_of w)(h := stream)
                         \<and> cublasSetStream h stream \<in> set cs
                         \<and> h = (if idle w stream = [] then new_handle v (issued w)
                                else last (idle w stream)))"
    and pool: "\<And>s. idle w' s
                     = (if s = stream \<and> idle w stream \<noteq> [] then butlast (idle w stream)
                        else idle w s)"
    by blast
  have in_w: "h \<in> set (idle w s)" if "h \<in> set (idle w' s)" for s h
    using that pool [of s] by (auto dest: in_set_butlastD split: if_splits)
  have "stream_of w' h = s" if h: "h \<in> set (idle w' s)" for s h
  proof -
    from in_w [OF h] have old: "h \<in> set (idle w s)" .
    from streams show ?thesis
    proof
      assume "stream_of w' = stream_of w"
      with filed [OF old] show ?thesis by simp
    next
      assume "\<exists>h. stream_of w' = (stream_of w)(h := stream)
                         \<and> cublasSetStream h stream \<in> set cs
                         \<and> h = (if idle w stream = [] then new_handle v (issued w)
                                else last (idle w stream))"
      then obtain h0 where h0: "stream_of w' = (stream_of w)(h0 := stream)"
        "h0 = (if idle w stream = [] then new_handle v (issued w) else last (idle w stream))"
        by blast
      show ?thesis
      proof (cases "idle w stream = []")
        case True
        with new have "new_handle v (issued w) \<notin> set (idle w s)"
          by (simp add: creates_new_handle_def)
        with old h0(2) True have "h \<noteq> h0" by auto
        with h0(1) filed [OF old] show ?thesis by simp
      next
        case False
        then have "last (idle w stream) \<in> set (idle w stream)" by simp
        with filed h0(2) False have "stream_of w h0 = stream" by simp
        with h0(1) have "stream_of w' = stream_of w" by (simp add: fun_upd_idem)
        with filed [OF old] show ?thesis by simp
      qed
    qed
  qed
  moreover have "\<exists>s. cublasSetStream h s \<in> set (issued w')" if h: "stream_of w' h \<noteq> 0" for h
  proof (cases "stream_of w' h = stream_of w h")
    case True
    with h set [of h] cs show ?thesis by auto
  next
    case False
    with streams obtain h0 where "stream_of w' = (stream_of w)(h0 := stream)"
      and "cublasSetStream h0 stream \<in> set cs"
      by auto
    with False cs show ?thesis by (auto split: if_splits)
  qed
  ultimately show ?thesis
    by (simp add: pool_in_order_def run)
qed

lemma Return_keeps_order:
  assumes "pool_in_order w" and "stream_of w (held_handle h) = held_stream h"
  shows "pool_in_order (Return h w)"
  using assms by (auto simp: pool_in_order_def Return_def idle_def split: if_splits)

lemma Borrow_handle_bound:
  assumes order: "pool_in_order w"
    and new: "idle w stream = [] \<longrightarrow> creates_new_handle v w"
    and run: "Borrow v stream w = (Inr h, w')"
  shows "stream_of w' (held_handle h) = stream \<and> held_stream h = stream"
proof (cases "stream = 0")
  case False
  with run Borrow_binds_stream show ?thesis by blast
next
  case True
  have null: "stream_of w' = stream_of w" "held_stream h = 0"
    "held_handle h = (if idle w 0 = [] then new_handle v (issued w) else last (idle w 0))"
    using run True
    by (auto simp: Borrow_def vendor_call_def Let_def idle_def
        split: if_splits prod.splits Status.splits sum.splits)
  show ?thesis
  proof (cases "idle w 0 = []")
    case True
    with new \<open>stream = 0\<close> have "\<And>s. cublasSetStream (new_handle v (issued w)) s \<notin> set (issued w)"
      by (simp add: creates_new_handle_def)
    with order have "stream_of w (new_handle v (issued w)) = 0"
      by (auto simp: pool_in_order_def)
    with null True \<open>stream = 0\<close> show ?thesis by simp
  next
    case False
    then have "last (idle w 0) \<in> set (idle w 0)" by simp
    with order have "stream_of w (last (idle w 0)) = 0"
      by (simp add: pool_in_order_def)
    with null False \<open>stream = 0\<close> show ?thesis by simp
  qed
qed

text \<open>
  \<^bold>\<open>C1.\<close> The handle that \<^verbatim>\<open>Borrow\<close> returns is bound to the stream supplied. For a
  stream that is not null \<^verbatim>\<open>cublasSetStream(handle, stream)\<close> is the last call that
  \<^verbatim>\<open>Borrow\<close> issued and it succeeded, whatever the handle was bound to before. For every
  stream, the null stream too (for which \<^verbatim>\<open>if (stream)\<close> issues no call), the handle is
  bound to the stream supplied whenever the pool is in order and a handle that
  \<^verbatim>\<open>cublasCreate\<close> makes is a new one; and the pool is left in order.
\<close>

theorem Borrow_handle_on_supplied_stream:
  "(stream \<noteq> 0 \<and> Borrow v stream w = (Inr h, w') \<longrightarrow>
      stream_of w' (held_handle h) = stream \<and> held_stream h = stream
      \<and> issued w' \<noteq> [] \<and> last (issued w') = cublasSetStream (held_handle h) stream
      \<and> status_of v (butlast (issued w')) (last (issued w')) = 0)
   \<and> (pool_in_order w \<and> (idle w stream = [] \<longrightarrow> creates_new_handle v w)
        \<and> Borrow v stream w = (Inr h, w') \<longrightarrow>
      stream_of w' (held_handle h) = stream \<and> held_stream h = stream
      \<and> pool_in_order w')"
proof (rule conjI; rule impI)
  assume "stream \<noteq> 0 \<and> Borrow v stream w = (Inr h, w')"
  then show "stream_of w' (held_handle h) = stream \<and> held_stream h = stream
      \<and> issued w' \<noteq> [] \<and> last (issued w') = cublasSetStream (held_handle h) stream
      \<and> status_of v (butlast (issued w')) (last (issued w')) = 0"
    using Borrow_binds_stream by blast
next
  assume *: "pool_in_order w \<and> (idle w stream = [] \<longrightarrow> creates_new_handle v w)
        \<and> Borrow v stream w = (Inr h, w')"
  then have run: "Borrow v stream w = (Inr h, w')" by simp
  from * Borrow_keeps_order [of w stream v] have order': "pool_in_order w'"
    by (simp add: run)
  from * have bound: "stream_of w' (held_handle h) = stream \<and> held_stream h = stream"
    using Borrow_handle_bound [of w stream v h w'] by simp
  from bound order' show "stream_of w' (held_handle h) = stream \<and> held_stream h = stream
      \<and> pool_in_order w'"
    by simp
qed

text \<open>
  From the empty pool: a handle borrowed for stream 7 is created, on the default stream,
  and bound to stream 7; one borrowed for the null stream is created and stays on the
  null stream. Returned, it idles for the null stream, and the next \<^verbatim>\<open>Borrow(nullptr)\<close>
  takes it from there, bound to the null stream, with no call issued. After a solve on
  stream 7, whose handle 256 idles for stream 7, \<^verbatim>\<open>Borrow(nullptr)\<close> creates the handle
  263, which is on the null stream.
\<close>

lemma Borrow_Return_null:
  "Return \<lparr>held_handle = 256, held_stream = 0\<rparr> (snd (Borrow ok_vendor 0 fresh_world))
     = null_idle_world"
  by (simp add: Borrow_def Return_def vendor_call_def ok_vendor_def fresh_world_def idle_def
      Let_def null_idle_world_def)

lemma Borrow_after_solve:
  "Borrow counting_vendor 0 trsm_world =
     (Inr \<lparr>held_handle = 263, held_stream = 0\<rparr>,
      trsm_world\<lparr>pool_handles := [7 \<mapsto> [256], 0 \<mapsto> []],
        issued := trsm_calls @ [cublasCreate]\<rparr>)"
  by (simp add: Borrow_def vendor_call_def counting_vendor_def trsm_world_def trsm_calls_def
      idle_def Let_def)

lemma pool_in_order_examples:
  "pool_in_order null_idle_world" "pool_in_order trsm_world"
  "creates_new_handle ok_vendor fresh_world" "creates_new_handle counting_vendor trsm_world"
  by (auto simp: pool_in_order_def creates_new_handle_def idle_def fresh_world_def
      null_idle_world_def trsm_world_def trsm_calls_def ok_vendor_def counting_vendor_def
      split: if_splits)

theorem Borrow_handle_on_supplied_stream_witness:
  "pool_in_order fresh_world \<and> creates_new_handle ok_vendor fresh_world
   \<and> pool_in_order null_idle_world \<and> idle null_idle_world 0 = [256]
   \<and> pool_in_order trsm_world \<and> creates_new_handle counting_vendor trsm_world
   \<and> Borrow ok_vendor 7 fresh_world =
       (Inr \<lparr>held_handle = 256, held_stream = 7\<rparr>,
        fresh_world\<lparr>pool_handles := [7 \<mapsto> []], issued := [cublasCreate, cublasSetStream 256 7],
          stream_of := (\<lambda>h. 0)(256 := 7)\<rparr>)
   \<and> Borrow ok_vendor 0 fresh_world =
       (Inr \<lparr>held_handle = 256, held_stream = 0\<rparr>,
        fresh_world\<lparr>pool_handles := [0 \<mapsto> []], issued := [cublasCreate]\<rparr>)
   \<and> stream_of (snd (Borrow ok_vendor 0 fresh_world)) 256 = 0
   \<and> Borrow ok_vendor 0 null_idle_world =
       (Inr \<lparr>held_handle = 256, held_stream = 0\<rparr>, null_idle_world\<lparr>pool_handles := [0 \<mapsto> []]\<rparr>)
   \<and> stream_of (snd (Borrow ok_vendor 0 null_idle_world)) 256 = 0
   \<and> fst (Borrow counting_vendor 0 trsm_world) = Inr \<lparr>held_handle = 263, held_stream = 0\<rparr>
   \<and> stream_of (snd (Borrow counting_vendor 0 trsm_world)) 263 = 0
   \<and> stream_of (snd (Borrow counting_vendor 0 trsm_world)) 256 = 7
   \<and> pool_in_order (snd (Borrow ok_vendor 7 fresh_world))
   \<and> pool_in_order (snd (Borrow ok_vendor 0 fresh_world))
   \<and> pool_in_order (snd (Borrow ok_vendor 0 null_idle_world))
   \<and> pool_in_order (snd (Borrow counting_vendor 0 trsm_world))"
proof -
  have runs:
    "Borrow ok_vendor 7 fresh_world =
       (Inr \<lparr>held_handle = 256, held_stream = 7\<rparr>,
        fresh_world\<lparr>pool_handles := [7 \<mapsto> []], issued := [cublasCreate, cublasSetStream 256 7],
          stream_of := (\<lambda>h. 0)(256 := 7)\<rparr>)"
    "Borrow ok_vendor 0 fresh_world =
       (Inr \<lparr>held_handle = 256, held_stream = 0\<rparr>,
        fresh_world\<lparr>pool_handles := [0 \<mapsto> []], issued := [cublasCreate]\<rparr>)"
    "Borrow ok_vendor 0 null_idle_world =
       (Inr \<lparr>held_handle = 256, held_stream = 0\<rparr>, null_idle_world\<lparr>pool_handles := [0 \<mapsto> []]\<rparr>)"
    by (simp_all add: Borrow_def vendor_call_def ok_vendor_def fresh_world_def idle_def Let_def
        null_idle_world_def)
  have idle: "idle null_idle_world 0 = [256]" "idle trsm_world 0 = []" "idle fresh_world 0 = []"
    "idle fresh_world 7 = []"
    by (simp_all add: idle_def null_idle_world_def trsm_world_def fresh_world_def)
  from Borrow_handle_on_supplied_stream [of 7 ok_vendor fresh_world
      "\<lparr>held_handle = 256, held_stream = 7\<rparr>" "snd (Borrow ok_vendor 7 fresh_world)"]
    Borrow_handle_on_supplied_stream [of 0 ok_vendor fresh_world
      "\<lparr>held_handle = 256, held_stream = 0\<rparr>" "snd (Borrow ok_vendor 0 fresh_world)"]
    Borrow_handle_on_supplied_stream [of 0 ok_vendor null_idle_world
      "\<lparr>held_handle = 256, held_stream = 0\<rparr>" "snd (Borrow ok_vendor 0 null_idle_world)"]
    Borrow_handle_on_supplied_stream [of 0 counting_vendor trsm_world
      "\<lparr>held_handle = 263, held_stream = 0\<rparr>" "snd (Borrow counting_vendor 0 trsm_world)"]
  show ?thesis
    using pool_in_order_fresh pool_in_order_examples idle runs
    by (simp add: Borrow_after_solve) (simp add: fresh_world_def null_idle_world_def trsm_world_def)
qed

text \<open>
  \<^bold>\<open>C6.\<close> When the stream has no idle handle and \<^verbatim>\<open>cublasCreate\<close> fails, \<^verbatim>\<open>Borrow\<close>
  returns the error of that call, \<^verbatim>\<open>cublasCreate\<close> is the only call it issued, and the
  idle handles of every stream are what they were: no handle entered the pool. (The
  map gains at most the empty vector that \<^verbatim>\<open>handles_[stream]\<close> enters for the stream.)
\<close>

theorem Borrow_create_failure_keeps_pool:
  assumes "idle w stream = []" and "status_of v (issued w) cublasCreate \<noteq> 0"
  shows "fst (Borrow v stream w)
           = Inl (Vendor_call_failed cublasCreate (status_of v (issued w) cublasCreate))
       \<and> (\<forall>s. idle (snd (Borrow v stream w)) s = idle w s)
       \<and> new_calls w (snd (Borrow v stream w)) = [cublasCreate]"
proof -
  from assms have run: "Borrow v stream w =
      (Inl (Vendor_call_failed cublasCreate (status_of v (issued w) cublasCreate)),
       w\<lparr>pool_handles := (pool_handles w)(stream \<mapsto> []), issued := issued w @ [cublasCreate]\<rparr>)"
    by (simp add: Borrow_def vendor_call_def Let_def idle_def)
  have "idle (snd (Borrow v stream w)) s = idle w s" for s
    using assms(1) by (cases "s = stream") (simp_all add: run idle_def)
  then show ?thesis
    by (simp add: run new_calls_def)
qed

theorem Borrow_create_failure_keeps_pool_witness:
  "idle stale_world 9 = []
   \<and> status_of no_create_vendor (issued stale_world) cublasCreate \<noteq> 0
   \<and> fst (Borrow no_create_vendor 9 stale_world) = Inl (Vendor_call_failed cublasCreate 1)
   \<and> idle (snd (Borrow no_create_vendor 9 stale_world)) 0 = [256]
   \<and> idle (snd (Borrow no_create_vendor 9 stale_world)) 7 = [257]
   \<and> idle (snd (Borrow no_create_vendor 9 stale_world)) 9 = []"
  using Borrow_create_failure_keeps_pool [of stale_world 9 no_create_vendor]
  by (simp add: idle_def stale_world_def no_create_vendor_def)

text \<open>
  \<^bold>\<open>C9.\<close> For the null stream \<^verbatim>\<open>Borrow\<close> issues no \<^verbatim>\<open>cublasSetStream\<close> and leaves
  the stream of every handle as the library has it. The handle it returns is the one
  \<^verbatim>\<open>cublasCreate\<close> made when the null stream had no idle handle, and the last idle one
  otherwise; it fails only when that \<^verbatim>\<open>cublasCreate\<close> fails.
\<close>

theorem Borrow_null_stream_skips_binding:
  "filter is_set_stream (new_calls w (snd (Borrow v 0 w))) = []
   \<and> stream_of (snd (Borrow v 0 w)) = stream_of w
   \<and> (case fst (Borrow v 0 w) of
        Inl e \<Rightarrow> idle w 0 = [] \<and> status_of v (issued w) cublasCreate \<noteq> 0
      | Inr h \<Rightarrow> held_stream h = 0 \<and>
          held_handle h = (if idle w 0 = [] then new_handle v (issued w) else last (idle w 0)))"
proof (cases "idle w 0 = []")
  case True
  then show ?thesis
    by (simp add: Borrow_def vendor_call_def Let_def idle_def new_calls_def)
next
  case False
  then show ?thesis
    by (simp add: Borrow_def Let_def idle_def new_calls_def)
qed

theorem Borrow_null_stream_skips_binding_witness:
  "new_calls fresh_world (snd (Borrow ok_vendor 0 fresh_world)) = [cublasCreate]
   \<and> fst (Borrow ok_vendor 0 fresh_world) = Inr \<lparr>held_handle = 256, held_stream = 0\<rparr>
   \<and> stream_of (snd (Borrow ok_vendor 0 fresh_world)) = stream_of fresh_world
   \<and> fst (Borrow ok_vendor 0 stale_world) = Inr \<lparr>held_handle = 256, held_stream = 0\<rparr>
   \<and> stream_of (snd (Borrow ok_vendor 0 stale_world)) 256 = 3"
  using Borrow_null_stream_skips_binding [of fresh_world ok_vendor]
    Borrow_null_stream_skips_binding [of stale_world ok_vendor]
  by (simp add: Borrow_def vendor_call_def Let_def idle_def new_calls_def ok_vendor_def
      fresh_world_def stale_world_def)

section \<open>The array of batch pointers\<close>

lemma upt_2: "[0..<2] = [0, 1]"
  by (simp add: upt_rec)

lemma upt_4: "[0..<4] = [0, 1, 2, 3]"
  by (simp add: upt_rec)

lemma length_batch_pointers [simp]:
  "length (batch_pointers buffer batch batch_elem_size) = nat (sint batch)"
  by (simp add: batch_pointers_def)

lemma nth_batch_pointers:
  "i < nat (sint batch) \<Longrightarrow>
     batch_pointers buffer batch batch_elem_size ! i = buffer + of_nat i * scast batch_elem_size"
  by (simp add: batch_pointers_def)

lemma MakeBatchPointers_run:
  "MakeBatchPointers v stream buffer dev_ptrs batch batch_elem_size w =
     (let host_ptrs = batch_pointers buffer batch batch_elem_size;
          c = cudaMemcpyAsync dev_ptrs (Host host_ptrs) (sizeof_ptr * of_nat (nat (sint batch)))
                cudaMemcpyHostToDevice stream
      in if status_of v (issued w) c = 0
         then (Inr host_ptrs,
               w\<lparr>issued := issued w @ [c], ptr_arrays := (ptr_arrays w)(dev_ptrs \<mapsto> host_ptrs)\<rparr>)
         else (Inl (Vendor_call_failed c (status_of v (issued w) c)), w\<lparr>issued := issued w @ [c]\<rparr>))"
  by (simp add: MakeBatchPointers_def vendor_call_def Let_def)

text \<open>
  \<^bold>\<open>C7.\<close> \<^verbatim>\<open>MakeBatchPointers\<close> issues one call, the copy of the host array to
  \<^verbatim>\<open>dev_ptrs\<close> on the stream; the host array has \<^verbatim>\<open>batch\<close> entries (none when \<^verbatim>\<open>batch\<close> is
  negative), and entry \<open>i\<close> is the address \<open>buffer + i * batch_elem_size\<close>. When the copy
  is accepted the array is returned and device memory holds it at \<^verbatim>\<open>dev_ptrs\<close>; when
  it is refused the error is returned. For a batch of 4 with stride 64 the array is
  \<open>[A, A + 64, A + 128, A + 192]\<close>.
\<close>

theorem MakeBatchPointers_host_array:
  "new_calls w (snd (MakeBatchPointers v stream A dev_ptrs batch batch_elem_size w))
     = [cudaMemcpyAsync dev_ptrs (Host (batch_pointers A batch batch_elem_size))
          (sizeof_ptr * of_nat (nat (sint batch))) cudaMemcpyHostToDevice stream]
   \<and> length (batch_pointers A batch batch_elem_size) = nat (sint batch)
   \<and> (\<forall>i < nat (sint batch).
         batch_pointers A batch batch_elem_size ! i = A + of_nat i * scast batch_elem_size)
   \<and> (case fst (MakeBatchPointers v stream A dev_ptrs batch batch_elem_size w) of
         Inr host_ptrs \<Rightarrow>
           host_ptrs = batch_pointers A batch batch_elem_size
           \<and> ptr_arrays (snd (MakeBatchPointers v stream A dev_ptrs batch batch_elem_size w)) dev_ptrs
               = Some host_ptrs
       | Inl e \<Rightarrow>
           ptr_arrays (snd (MakeBatchPointers v stream A dev_ptrs batch batch_elem_size w))
             = ptr_arrays w)
   \<and> batch_pointers A 4 64 = [A, A + 64, A + 128, A + 192]"
proof -
  have "batch_pointers A 4 64 = [A, A + 64, A + 128, A + 192]"
    by (simp add: batch_pointers_def upt_4)
  then show ?thesis
    by (simp add: MakeBatchPointers_run Let_def new_calls_def nth_batch_pointers)
qed

theorem MakeBatchPointers_host_array_witness:
  "(2 :: nat) < nat (sint (4 :: c_int))
   \<and> batch_pointers 4096 4 64 ! 2 = 4096 + of_nat 2 * scast (64 :: c_int)
   \<and> batch_pointers 4096 4 64 = [4096, 4160, 4224, 4288]
   \<and> fst (MakeBatchPointers ok_vendor 7 4096 16384 4 64 fresh_world)
       = Inr [4096, 4160, 4224, 4288]
   \<and> new_calls fresh_world (snd (MakeBatchPointers ok_vendor 7 4096 16384 4 64 fresh_world))
       = [cudaMemcpyAsync 16384 (Host [4096, 4160, 4224, 4288]) 32 cudaMemcpyHostToDevice 7]
   \<and> ptr_arrays (snd (MakeBatchPointers ok_vendor 7 4096 16384 4 64 fresh_world)) 16384
       = Some [4096, 4160, 4224, 4288]"
  using MakeBatchPointers_host_array [of fresh_world ok_vendor 7 4096 16384 4 64]
  by (simp add: MakeBatchPointers_run Let_def ok_vendor_def fresh_world_def sizeof_ptr_def)

section \<open>The calls of a dispatcher\<close>


lemma Return_issued [simp]: "issued (Return h w) = issued w"
  by (simp add: Return_def)

lemma Return_arrays [simp]:
  "ptr_arrays (Return h w) = ptr_arrays w" "info_arrays (Return h w) = info_arrays w"
  by (simp_all add: Return_def)

lemma written_Return [simp]: "written (Return h w) c = written w c"
  by (cases c) simp_all


lemma not_on_stream_copy: "\<not> on_stream c \<Longrightarrow> \<not> is_device_copy c \<and> \<not> is_host_copy c"
  by (cases c) simp_all

text \<open>
  \<^verbatim>\<open>Borrow\<close> extends the calls issued by calls that prepare a handle; it returns a
  handle exactly when they all succeeded.
\<close>

lemma Borrow_log:
  assumes "Borrow v stream w = (r, w')"
  shows "\<exists>cs. issued w' = issued w @ cs \<and> (\<not> isl r) = all_succeed v (issued w) cs
           \<and> (\<forall>c \<in> set cs. \<not> on_stream c)
           \<and> ptr_arrays w' = ptr_arrays w \<and> info_arrays w' = info_arrays w"
  using assms
  by (auto simp: Borrow_def vendor_call_def Let_def
      split: if_splits prod.splits Status.splits sum.splits)



text \<open>
  A dispatcher is \<^verbatim>\<open>Borrow\<close>, the staged steps and \<^verbatim>\<open>Return\<close>, once the descriptor is
  unpacked and its element type is one of the four.
\<close>

lemma TrsmBatched_impl_run:
  assumes "UnpackDescriptor_Trsm opaque = Inr d" and "Borrow v stream w = (Inr h, w1)"
    and "Type_of_int (trsm_type d) = Some t"
    and "TrsmBatched_staged v stream buffers d t h w1 = (s, w2)"
  shows "TrsmBatched_impl v stream buffers opaque w = Some (s, Return h w2)"
  using assms by (simp add: TrsmBatched_impl_def)

lemma GetrfBatched_impl_run:
  assumes "UnpackDescriptor_Getrf opaque = Inr d" and "Borrow v stream w = (Inr h, w1)"
    and "Type_of_int (getrf_type d) = Some t"
    and "GetrfBatched_staged v stream buffers d t h w1 = (s, w2)"
  shows "GetrfBatched_impl v stream buffers opaque w = Some (s, Return h w2)"
  using assms by (simp add: GetrfBatched_impl_def)

lemma TrsmBatched_impl_cases:
  assumes "TrsmBatched_impl v stream buffers opaque w = Some (s, w')"
  obtains "UnpackDescriptor_Trsm opaque = Inl Invalid_descriptor_size"
      and "s = InternalError Invalid_descriptor_size" and "w' = w"
  | d e where "UnpackDescriptor_Trsm opaque = Inr d" and "Borrow v stream w = (Inl e, w')"
      and "s = InternalError e"
  | d h w1 t w2 where "UnpackDescriptor_Trsm opaque = Inr d" and "Borrow v stream w = (Inr h, w1)"
      and "Type_of_int (trsm_type d) = Some t"
      and "TrsmBatched_staged v stream buffers d t h w1 = (s, w2)" and "w' = Return h w2"
proof (cases "UnpackDescriptor_Trsm opaque")
  case (Inl e)
  then have "e = Invalid_descriptor_size"
    by (simp add: UnpackDescriptor_Trsm_def split: if_splits)
  with Inl assms that(1) show ?thesis
    by (simp add: TrsmBatched_impl_def)
next
  case (Inr d)
  with assms that(2,3) show ?thesis
    by (auto simp: TrsmBatched_impl_def split: prod.splits sum.splits option.splits)
qed

lemma GetrfBatched_impl_cases:
  assumes "GetrfBatched_impl v stream buffers opaque w = Some (s, w')"
  obtains "UnpackDescriptor_Getrf opaque = Inl Invalid_descriptor_size"
      and "s = InternalError Invalid_descriptor_size" and "w' = w"
  | d e where "UnpackDescriptor_Getrf opaque = Inr d" and "Borrow v stream w = (Inl e, w')"
      and "s = InternalError e"
  | d h w1 t w2 where "UnpackDescriptor_Getrf opaque = Inr d" and "Borrow v stream w = (Inr h, w1)"
      and "Type_of_int (getrf_type d) = Some t"
      and "GetrfBatched_staged v stream buffers d t h w1 = (s, w2)" and "w' = Return h w2"
proof (cases "UnpackDescriptor_Getrf opaque")
  case (Inl e)
  then have "e = Invalid_descriptor_size"
    by (simp add: UnpackDescriptor_Getrf_def split: if_splits)
  with Inl assms that(1) show ?thesis
    by (simp add: GetrfBatched_impl_def)
next
  case (Inr d)
  with assms that(2,3) show ?thesis
    by (auto simp: GetrfBatched_impl_def split: prod.splits sum.splits option.splits)
qed

text \<open>
  The steps after \<^verbatim>\<open>Borrow\<close> leave the pool and the streams of the handles alone, so a
  dispatcher keeps the pool's order: started with the pool in order, it ends with the
  pool in order.
\<close>

lemma TrsmBatched_staged_pool:
  assumes "TrsmBatched_staged v stream buffers d t h w = (s, w')"
  shows "pool_handles w' = pool_handles w \<and> stream_of w' = stream_of w
       \<and> (\<exists>cs. issued w' = issued w @ cs)"
  using assms
  by (auto simp: TrsmBatched_staged_def MakeBatchPointers_def vendor_call_def Let_def
      split: if_splits prod.splits Status.splits sum.splits)

lemma GetrfBatched_staged_pool:
  assumes "GetrfBatched_staged v stream buffers d t h w = (s, w')"
  shows "pool_handles w' = pool_handles w \<and> stream_of w' = stream_of w
       \<and> (\<exists>cs. issued w' = issued w @ cs)"
  using assms
  by (auto simp: GetrfBatched_staged_def MakeBatchPointers_def vendor_call_def Let_def
      split: if_splits prod.splits Status.splits sum.splits)

lemma pool_in_order_kept:
  assumes "pool_in_order w" and "pool_handles w' = pool_handles w"
    and "stream_of w' = stream_of w" and "\<exists>cs. issued w' = issued w @ cs"
  shows "pool_in_order w'"
proof -
  from assms(4) obtain cs where cs: "issued w' = issued w @ cs" by blast
  have "\<exists>s. cublasSetStream h s \<in> set (issued w')" if "stream_of w' h \<noteq> 0" for h
  proof -
    from that assms(1,3) obtain s where "cublasSetStream h s \<in> set (issued w)"
      by (auto simp: pool_in_order_def)
    with cs show ?thesis by auto
  qed
  moreover have "stream_of w' h = s" if "h \<in> set (idle w' s)" for s h
    using that assms(1,2,3) by (simp add: pool_in_order_def idle_def)
  ultimately show ?thesis
    by (simp add: pool_in_order_def)
qed

lemma dispatchers_keep_order:
  assumes order: "pool_in_order w"
    and new: "idle w stream = [] \<longrightarrow> creates_new_handle v w"
  shows "TrsmBatched_impl v stream buffers opaque w = Some (s, w') \<Longrightarrow> pool_in_order w'"
    and "GetrfBatched_impl v stream buffers opaque w = Some (s, w') \<Longrightarrow> pool_in_order w'"
proof -
  have failed: "pool_in_order w1" if "Borrow v stream w = (r, w1)" for r w1
    using Borrow_keeps_order [OF order new] that by simp
  have returned: "pool_in_order (Return h w2)"
    if "Borrow v stream w = (Inr h, w1)"
      and "pool_handles w2 = pool_handles w1 \<and> stream_of w2 = stream_of w1
             \<and> (\<exists>cs. issued w2 = issued w1 @ cs)" for h w1 w2
  proof -
    from failed that(1) have "pool_in_order w1" .
    then have "pool_in_order w2"
      using that(2) by (intro pool_in_order_kept [of w1 w2]) simp_all
    moreover have "stream_of w2 (held_handle h) = held_stream h"
      using Borrow_handle_bound [OF order new that(1)] that(2) by simp
    ultimately show ?thesis by (rule Return_keeps_order)
  qed
  show "pool_in_order w'" if "TrsmBatched_impl v stream buffers opaque w = Some (s, w')"
    using that
  proof (cases rule: TrsmBatched_impl_cases)
    case 1
    with order show ?thesis by simp
  next
    case (2 d e)
    with failed show ?thesis by simp
  next
    case (3 d h w1 t w2)
    with returned [OF 3(2) TrsmBatched_staged_pool [OF 3(4)]] show ?thesis by simp
  qed
  show "pool_in_order w'" if "GetrfBatched_impl v stream buffers opaque w = Some (s, w')"
    using that
  proof (cases rule: GetrfBatched_impl_cases)
    case 1
    with order show ?thesis by simp
  next
    case (2 d e)
    with failed show ?thesis by simp
  next
    case (3 d h w1 t w2)
    with returned [OF 3(2) GetrfBatched_staged_pool [OF 3(4)]] show ?thesis by simp
  qed
qed

section \<open>What reaches the status\<close>




section \<open>The example runs\<close>

lemmas run_defs =
  TrsmBatched_impl_def TrsmBatched_staged_def GetrfBatched_impl_def GetrfBatched_staged_def
  MakeBatchPointers_def batch_pointers_def Borrow_def Return_def vendor_call_def idle_def
  Type_of_int_def sizeof_ptr_def Let_def

lemma new_calls_fresh [simp]: "new_calls fresh_world w = issued w"
  by (simp add: new_calls_def fresh_world_def)

lemma run_trsm:
  "TrsmBatched_impl ok_vendor 7 separate_buffers (PackDescriptor_Trsm example_trsm) fresh_world
     = Some (OkStatus, trsm_world)"
  by (simp add: run_defs Unpack_Pack_Trsm example_defs upt_2 trsm_world_def trsm_calls_def)

lemma run_trsm_counting:
  "TrsmBatched_impl counting_vendor 7 separate_buffers (PackDescriptor_Trsm example_trsm) fresh_world
     = Some (OkStatus, trsm_world)"
  by (simp add: run_defs Unpack_Pack_Trsm example_defs counting_vendor_def upt_2 trsm_world_def
      trsm_calls_def)


lemma run_getrf:
  "GetrfBatched_impl ok_vendor 7 separate_buffers (PackDescriptor_Getrf example_getrf) fresh_world
     = Some (OkStatus, getrf_world)"
  by (simp add: run_defs Unpack_Pack_Getrf example_defs upt_2 getrf_world_def)

lemma run_getrf_inplace:
  "GetrfBatched_impl ok_vendor 7 inplace_buffers (PackDescriptor_Getrf example_getrf) fresh_world
     = Some (OkStatus, getrf_inplace_world)"
  by (simp add: run_defs Unpack_Pack_Getrf example_defs upt_2 getrf_inplace_world_def)


section \<open>The staging copy\<close>

lemma size_t_of_int_exact:
  fixes x :: c_int
  assumes "x = word_of_int p" and "0 \<le> p" and "p < 2 ^ 31"
  shows "uint (scast x :: size_t) = p"
proof -
  have "sint x = signed_take_bit 31 p"
    using assms(1) by (simp add: sint_sbintrunc')
  also have "\<dots> = p"
    using assms(2,3) by (intro signed_take_bit_int_eq_self) simp_all
  finally have s: "sint x = p" .
  have lt: "p < 2 ^ 64"
  proof -
    have "(2::int) ^ 31 \<le> 2 ^ 64" by (rule power_increasing) simp_all
    with assms(3) show ?thesis by (rule less_le_trans)
  qed
  have "uint (word_of_int (sint x) :: size_t) = take_bit LENGTH(64) (sint x)"
    by (rule uint_word_of_int_eq)
  then have "uint (scast x :: size_t) = take_bit 64 (sint x)"
    by (simp only: scast_eq [symmetric] len_bit0 len_num1 One_nat_def) simp
  also have "\<dots> = p"
    unfolding s using assms(2) lt by (rule take_bit_int_eq_self)
  finally show ?thesis .
qed

text \<open>
  The byte count of the staging copy is a product of four \<^verbatim>\<open>int\<close>s, converted to
  \<^verbatim>\<open>size_t\<close>. It is the product of the four numbers whenever that product is an
  \<^verbatim>\<open>int\<close> that is not negative.
\<close>

lemma copy_size_exact:
  fixes a b c d :: c_int
  assumes "0 \<le> sint a * sint b * sint c * sint d" and "sint a * sint b * sint c * sint d < 2 ^ 31"
  shows "uint (scast (a * b * c * d) :: size_t) = sint a * sint b * sint c * sint d"
proof -
  have "a * b * c * d = word_of_int (sint a * sint b * sint c * sint d)"
    by simp
  then show ?thesis using assms by (rule size_t_of_int_exact)
qed

lemma TrsmBatched_staged_copy:
  assumes "TrsmBatched_staged v stream buffers d t h w = (s, w')"
  shows "\<exists>cs. issued w' = issued w @ cs \<and> (\<forall>c \<in> set cs. on_stream c)
           \<and> filter is_device_copy cs =
               (if buffers 2 \<noteq> buffers 1
                then [cudaMemcpyAsync (buffers 2) (Device (buffers 1))
                        (scast (SizeOfType t * trsm_batch d * trsm_m d * trsm_n d))
                        cudaMemcpyDeviceToDevice stream]
                else [])
           \<and> (buffers 2 \<noteq> buffers 1 \<longrightarrow>
                take 1 cs = [cudaMemcpyAsync (buffers 2) (Device (buffers 1))
                        (scast (SizeOfType t * trsm_batch d * trsm_m d * trsm_n d))
                        cudaMemcpyDeviceToDevice stream])"
  using assms
  by (auto simp: TrsmBatched_staged_def MakeBatchPointers_def vendor_call_def Let_def
      split: if_splits prod.splits Status.splits sum.splits)

lemma GetrfBatched_staged_copy:
  assumes "GetrfBatched_staged v stream buffers d t h w = (s, w')"
  shows "\<exists>cs. issued w' = issued w @ cs \<and> (\<forall>c \<in> set cs. on_stream c)
           \<and> filter is_device_copy cs =
               (if buffers 0 \<noteq> buffers 1
                then [cudaMemcpyAsync (buffers 1) (Device (buffers 0))
                        (scast (SizeOfType t * getrf_batch d * getrf_n d * getrf_n d))
                        cudaMemcpyDeviceToDevice stream]
                else [])
           \<and> (buffers 0 \<noteq> buffers 1 \<longrightarrow>
                take 1 cs = [cudaMemcpyAsync (buffers 1) (Device (buffers 0))
                        (scast (SizeOfType t * getrf_batch d * getrf_n d * getrf_n d))
                        cudaMemcpyDeviceToDevice stream])"
  using assms
  by (auto simp: GetrfBatched_staged_def MakeBatchPointers_def vendor_call_def Let_def
      split: if_splits prod.splits Status.splits sum.splits)

lemma filter_prepared:
  assumes "\<forall>c \<in> set cs1. \<not> on_stream c" and "\<forall>c \<in> set cs2. on_stream c"
  shows "filter on_stream (cs1 @ cs2) = cs2"
    and "filter is_device_copy (cs1 @ cs2) = filter is_device_copy cs2"
    and "filter is_host_copy (cs1 @ cs2) = filter is_host_copy cs2"
proof -
  have "filter on_stream cs1 = []" "filter is_device_copy cs1 = []" "filter is_host_copy cs1 = []"
    using assms(1) not_on_stream_copy by (auto simp: filter_empty_conv)
  moreover have "filter on_stream cs2 = cs2"
    using assms(2) by (simp add: filter_id_conv)
  ultimately show "filter on_stream (cs1 @ cs2) = cs2"
    and "filter is_device_copy (cs1 @ cs2) = filter is_device_copy cs2"
    and "filter is_host_copy (cs1 @ cs2) = filter is_host_copy cs2"
    by simp_all
qed

lemma TrsmBatched_impl_copy:
  assumes unpack: "UnpackDescriptor_Trsm opaque = Inr d"
    and borrow: "\<not> isl (fst (Borrow v stream w))"
    and type: "Type_of_int (trsm_type d) = Some t"
  shows "\<exists>s w'. TrsmBatched_impl v stream buffers opaque w = Some (s, w')
         \<and> filter is_device_copy (new_calls w w') =
             (if buffers 2 \<noteq> buffers 1
              then [cudaMemcpyAsync (buffers 2) (Device (buffers 1))
                      (scast (SizeOfType t * trsm_batch d * trsm_m d * trsm_n d))
                      cudaMemcpyDeviceToDevice stream]
              else [])
         \<and> (buffers 2 \<noteq> buffers 1 \<longrightarrow>
              take 1 (filter on_stream (new_calls w w')) =
                [cudaMemcpyAsync (buffers 2) (Device (buffers 1))
                      (scast (SizeOfType t * trsm_batch d * trsm_m d * trsm_n d))
                      cudaMemcpyDeviceToDevice stream])"
proof -
  from borrow obtain h w1 where b: "Borrow v stream w = (Inr h, w1)"
    by (cases "Borrow v stream w"; cases "fst (Borrow v stream w)") auto
  obtain s w2 where st: "TrsmBatched_staged v stream buffers d t h w1 = (s, w2)"
    by (cases "TrsmBatched_staged v stream buffers d t h w1")
  from Borrow_log [OF b] obtain cs1 where
    cs1: "issued w1 = issued w @ cs1" "\<forall>c \<in> set cs1. \<not> on_stream c" by blast
  from TrsmBatched_staged_copy [OF st] obtain cs2 where
    cs2: "issued w2 = issued w1 @ cs2" "\<forall>c \<in> set cs2. on_stream c"
    and copies: "filter is_device_copy cs2 =
             (if buffers 2 \<noteq> buffers 1
              then [cudaMemcpyAsync (buffers 2) (Device (buffers 1))
                      (scast (SizeOfType t * trsm_batch d * trsm_m d * trsm_n d))
                      cudaMemcpyDeviceToDevice stream]
              else [])"
    and first: "buffers 2 \<noteq> buffers 1 \<longrightarrow>
              take 1 cs2 =
                [cudaMemcpyAsync (buffers 2) (Device (buffers 1))
                      (scast (SizeOfType t * trsm_batch d * trsm_m d * trsm_n d))
                      cudaMemcpyDeviceToDevice stream]"
    by blast
  have "issued (Return h w2) = issued w @ (cs1 @ cs2)"
    using cs1(1) cs2(1) by simp
  then have calls: "new_calls w (Return h w2) = cs1 @ cs2"
    by (rule new_calls_append)
  note prepared = filter_prepared [OF cs1(2) cs2(2)]
  have on_stream: "filter on_stream (new_calls w (Return h w2)) = cs2"
    by (simp only: calls prepared(1))
  have device: "filter is_device_copy (new_calls w (Return h w2)) = filter is_device_copy cs2"
    by (simp only: calls prepared(2))
  show ?thesis
  proof (intro exI conjI)
    show "TrsmBatched_impl v stream buffers opaque w = Some (s, Return h w2)"
      by (rule TrsmBatched_impl_run [OF unpack b type st])
    show "filter is_device_copy (new_calls w (Return h w2)) =
             (if buffers 2 \<noteq> buffers 1
              then [cudaMemcpyAsync (buffers 2) (Device (buffers 1))
                      (scast (SizeOfType t * trsm_batch d * trsm_m d * trsm_n d))
                      cudaMemcpyDeviceToDevice stream]
              else [])"
      by (simp only: device copies)
    show "buffers 2 \<noteq> buffers 1 \<longrightarrow>
              take 1 (filter on_stream (new_calls w (Return h w2))) =
                [cudaMemcpyAsync (buffers 2) (Device (buffers 1))
                      (scast (SizeOfType t * trsm_batch d * trsm_m d * trsm_n d))
                      cudaMemcpyDeviceToDevice stream]"
      unfolding on_stream by (rule first)
  qed
qed

lemma GetrfBatched_impl_copy:
  assumes unpack: "UnpackDescriptor_Getrf opaque = Inr d"
    and borrow: "\<not> isl (fst (Borrow v stream w))"
    and type: "Type_of_int (getrf_type d) = Some t"
  shows "\<exists>s w'. GetrfBatched_impl v stream buffers opaque w = Some (s, w')
         \<and> filter is_device_copy (new_calls w w') =
             (if buffers 0 \<noteq> buffers 1
              then [cudaMemcpyAsync (buffers 1) (Device (buffers 0))
                      (scast (SizeOfType t * getrf_batch d * getrf_n d * getrf_n d))
                      cudaMemcpyDeviceToDevice stream]
              else [])
         \<and> (buffers 0 \<noteq> buffers 1 \<longrightarrow>
              take 1 (filter on_stream (new_calls w w')) =
                [cudaMemcpyAsync (buffers 1) (Device (buffers 0))
                      (scast (SizeOfType t * getrf_batch d * getrf_n d * getrf_n d))
                      cudaMemcpyDeviceToDevice stream])"
proof -
  from borrow obtain h w1 where b: "Borrow v stream w = (Inr h, w1)"
    by (cases "Borrow v stream w"; cases "fst (Borrow v stream w)") auto
  obtain s w2 where st: "GetrfBatched_staged v stream buffers d t h w1 = (s, w2)"
    by (cases "GetrfBatched_staged v stream buffers d t h w1")
  from Borrow_log [OF b] obtain cs1 where
    cs1: "issued w1 = issued w @ cs1" "\<forall>c \<in> set cs1. \<not> on_stream c" by blast
  from GetrfBatched_staged_copy [OF st] obtain cs2 where
    cs2: "issued w2 = issued w1 @ cs2" "\<forall>c \<in> set cs2. on_stream c"
    and copies: "filter is_device_copy cs2 =
             (if buffers 0 \<noteq> buffers 1
              then [cudaMemcpyAsync (buffers 1) (Device (buffers 0))
                      (scast (SizeOfType t * getrf_batch d * getrf_n d * getrf_n d))
                      cudaMemcpyDeviceToDevice stream]
              else [])"
    and first: "buffers 0 \<noteq> buffers 1 \<longrightarrow>
              take 1 cs2 =
                [cudaMemcpyAsync (buffers 1) (Device (buffers 0))
                      (scast (SizeOfType t * getrf_batch d * getrf_n d * getrf_n d))
                      cudaMemcpyDeviceToDevice stream]"
    by blast
  have "issued (Return h w2) = issued w @ (cs1 @ cs2)"
    using cs1(1) cs2(1) by simp
  then have calls: "new_calls w (Return h w2) = cs1 @ cs2"
    by (rule new_calls_append)
  note prepared = filter_prepared [OF cs1(2) cs2(2)]
  have on_stream: "filter on_stream (new_calls w (Return h w2)) = cs2"
    by (simp only: calls prepared(1))
  have device: "filter is_device_copy (new_calls w (Return h w2)) = filter is_device_copy cs2"
    by (simp only: calls prepared(2))
  show ?thesis
  proof (intro exI conjI)
    show "GetrfBatched_impl v stream buffers opaque w = Some (s, Return h w2)"
      by (rule GetrfBatched_impl_run [OF unpack b type st])
    show "filter is_device_copy (new_calls w (Return h w2)) =
             (if buffers 0 \<noteq> buffers 1
              then [cudaMemcpyAsync (buffers 1) (Device (buffers 0))
                      (scast (SizeOfType t * getrf_batch d * getrf_n d * getrf_n d))
                      cudaMemcpyDeviceToDevice stream]
              else [])"
      by (simp only: device copies)
    show "buffers 0 \<noteq> buffers 1 \<longrightarrow>
              take 1 (filter on_stream (new_calls w (Return h w2))) =
                [cudaMemcpyAsync (buffers 1) (Device (buffers 0))
                      (scast (SizeOfType t * getrf_batch d * getrf_n d * getrf_n d))
                      cudaMemcpyDeviceToDevice stream]"
      unfolding on_stream by (rule first)
  qed
qed

text \<open>
  \<^bold>\<open>C5\<close>, as the code has it. An invocation that unpacked its descriptor (of one of
  the four element types) and borrowed a handle has a result, and among the calls it
  issued there is a device-to-device copy exactly when \<^verbatim>\<open>buffers[2]\<close> and \<^verbatim>\<open>buffers[1]\<close>
  (\<^verbatim>\<open>buffers[0]\<close> and \<^verbatim>\<open>buffers[1]\<close> for the factorisation) are different addresses:
  none when they are the same, and otherwise one copy, from the input to the working
  buffer, which is the first call on the stream. The copy transfers
  \<^verbatim>\<open>element_size * batch * m * n\<close> bytes whenever that number fits the \<^verbatim>\<open>int\<close> the code
  computes it in; nothing is stated of its byte count otherwise.
\<close>

theorem staging_copy_iff_buffers_differ:
  "(UnpackDescriptor_Trsm opaque = Inr d \<and> \<not> isl (fst (Borrow v stream w))
      \<and> Type_of_int (trsm_type d) = Some t \<longrightarrow>
      (\<exists>s w'. TrsmBatched_impl v stream buffers opaque w = Some (s, w')
         \<and> (buffers 2 = buffers 1 \<longrightarrow> filter is_device_copy (new_calls w w') = [])
         \<and> (buffers 2 \<noteq> buffers 1 \<longrightarrow>
              (\<exists>count.
                 filter is_device_copy (new_calls w w') =
                   [cudaMemcpyAsync (buffers 2) (Device (buffers 1)) count
                      cudaMemcpyDeviceToDevice stream]
                 \<and> take 1 (filter on_stream (new_calls w w')) =
                   [cudaMemcpyAsync (buffers 2) (Device (buffers 1)) count
                      cudaMemcpyDeviceToDevice stream]
                 \<and> (0 \<le> sint (SizeOfType t) * sint (trsm_batch d) * sint (trsm_m d)
                           * sint (trsm_n d)
                    \<and> sint (SizeOfType t) * sint (trsm_batch d) * sint (trsm_m d)
                           * sint (trsm_n d) < 2 ^ 31 \<longrightarrow>
                    uint count = sint (SizeOfType t) * sint (trsm_batch d) * sint (trsm_m d)
                                   * sint (trsm_n d))))))
   \<and> (UnpackDescriptor_Getrf opaque = Inr g \<and> \<not> isl (fst (Borrow v stream w))
      \<and> Type_of_int (getrf_type g) = Some t \<longrightarrow>
      (\<exists>s w'. GetrfBatched_impl v stream buffers opaque w = Some (s, w')
         \<and> (buffers 0 = buffers 1 \<longrightarrow> filter is_device_copy (new_calls w w') = [])
         \<and> (buffers 0 \<noteq> buffers 1 \<longrightarrow>
              (\<exists>count.
                 filter is_device_copy (new_calls w w') =
                   [cudaMemcpyAsync (buffers 1) (Device (buffers 0)) count
                      cudaMemcpyDeviceToDevice stream]
                 \<and> take 1 (filter on_stream (new_calls w w')) =
                   [cudaMemcpyAsync (buffers 1) (Device (buffers 0)) count
                      cudaMemcpyDeviceToDevice stream]
                 \<and> (0 \<le> sint (SizeOfType t) * sint (getrf_batch g) * sint (getrf_n g)
                           * sint (getrf_n g)
                    \<and> sint (SizeOfType t) * sint (getrf_batch g) * sint (getrf_n g)
                           * sint (getrf_n g) < 2 ^ 31 \<longrightarrow>
                    uint count = sint (SizeOfType t) * sint (getrf_batch g) * sint (getrf_n g)
                                   * sint (getrf_n g))))))"
proof (rule conjI; rule impI; elim conjE)
  assume "UnpackDescriptor_Trsm opaque = Inr d" and "\<not> isl (fst (Borrow v stream w))"
    and "Type_of_int (trsm_type d) = Some t"
  from TrsmBatched_impl_copy [OF this, of buffers] obtain s w' where
    run: "TrsmBatched_impl v stream buffers opaque w = Some (s, w')"
    and copies: "filter is_device_copy (new_calls w w') =
             (if buffers 2 \<noteq> buffers 1
              then [cudaMemcpyAsync (buffers 2) (Device (buffers 1))
                      (scast (SizeOfType t * trsm_batch d * trsm_m d * trsm_n d))
                      cudaMemcpyDeviceToDevice stream]
              else [])"
    and first: "buffers 2 \<noteq> buffers 1 \<longrightarrow>
              take 1 (filter on_stream (new_calls w w')) =
                [cudaMemcpyAsync (buffers 2) (Device (buffers 1))
                      (scast (SizeOfType t * trsm_batch d * trsm_m d * trsm_n d))
                      cudaMemcpyDeviceToDevice stream]"
    by blast
  show "\<exists>s w'. TrsmBatched_impl v stream buffers opaque w = Some (s, w')
         \<and> (buffers 2 = buffers 1 \<longrightarrow> filter is_device_copy (new_calls w w') = [])
         \<and> (buffers 2 \<noteq> buffers 1 \<longrightarrow>
              (\<exists>count.
                 filter is_device_copy (new_calls w w') =
                   [cudaMemcpyAsync (buffers 2) (Device (buffers 1)) count
                      cudaMemcpyDeviceToDevice stream]
                 \<and> take 1 (filter on_stream (new_calls w w')) =
                   [cudaMemcpyAsync (buffers 2) (Device (buffers 1)) count
                      cudaMemcpyDeviceToDevice stream]
                 \<and> (0 \<le> sint (SizeOfType t) * sint (trsm_batch d) * sint (trsm_m d)
                           * sint (trsm_n d)
                    \<and> sint (SizeOfType t) * sint (trsm_batch d) * sint (trsm_m d)
                           * sint (trsm_n d) < 2 ^ 31 \<longrightarrow>
                    uint count = sint (SizeOfType t) * sint (trsm_batch d) * sint (trsm_m d)
                                   * sint (trsm_n d))))"
  proof (intro exI [of _ s] exI [of _ w'] conjI impI)
    show "TrsmBatched_impl v stream buffers opaque w = Some (s, w')" by (rule run)
    show "filter is_device_copy (new_calls w w') = []" if "buffers 2 = buffers 1"
      using copies that by simp
    show "\<exists>count.
                 filter is_device_copy (new_calls w w') =
                   [cudaMemcpyAsync (buffers 2) (Device (buffers 1)) count
                      cudaMemcpyDeviceToDevice stream]
                 \<and> take 1 (filter on_stream (new_calls w w')) =
                   [cudaMemcpyAsync (buffers 2) (Device (buffers 1)) count
                      cudaMemcpyDeviceToDevice stream]
                 \<and> (0 \<le> sint (SizeOfType t) * sint (trsm_batch d) * sint (trsm_m d)
                           * sint (trsm_n d)
                    \<and> sint (SizeOfType t) * sint (trsm_batch d) * sint (trsm_m d)
                           * sint (trsm_n d) < 2 ^ 31 \<longrightarrow>
                    uint count = sint (SizeOfType t) * sint (trsm_batch d) * sint (trsm_m d)
                                   * sint (trsm_n d))"
      if "buffers 2 \<noteq> buffers 1"
    proof (intro exI [of _ "scast (SizeOfType t * trsm_batch d * trsm_m d * trsm_n d)"]
        conjI impI; (elim conjE)?)
      show "filter is_device_copy (new_calls w w') =
              [cudaMemcpyAsync (buffers 2) (Device (buffers 1))
                 (scast (SizeOfType t * trsm_batch d * trsm_m d * trsm_n d))
                 cudaMemcpyDeviceToDevice stream]"
        using copies that by simp
      show "take 1 (filter on_stream (new_calls w w')) =
              [cudaMemcpyAsync (buffers 2) (Device (buffers 1))
                 (scast (SizeOfType t * trsm_batch d * trsm_m d * trsm_n d))
                 cudaMemcpyDeviceToDevice stream]"
        using first that by simp
      assume "0 \<le> sint (SizeOfType t) * sint (trsm_batch d) * sint (trsm_m d) * sint (trsm_n d)"
        and "sint (SizeOfType t) * sint (trsm_batch d) * sint (trsm_m d) * sint (trsm_n d) < 2 ^ 31"
      then show "uint (scast (SizeOfType t * trsm_batch d * trsm_m d * trsm_n d) :: size_t)
          = sint (SizeOfType t) * sint (trsm_batch d) * sint (trsm_m d) * sint (trsm_n d)"
        by (rule copy_size_exact)
    qed
  qed
next
  assume "UnpackDescriptor_Getrf opaque = Inr g" and "\<not> isl (fst (Borrow v stream w))"
    and "Type_of_int (getrf_type g) = Some t"
  from GetrfBatched_impl_copy [OF this, of buffers] obtain s w' where
    run: "GetrfBatched_impl v stream buffers opaque w = Some (s, w')"
    and copies: "filter is_device_copy (new_calls w w') =
             (if buffers 0 \<noteq> buffers 1
              then [cudaMemcpyAsync (buffers 1) (Device (buffers 0))
                      (scast (SizeOfType t * getrf_batch g * getrf_n g * getrf_n g))
                      cudaMemcpyDeviceToDevice stream]
              else [])"
    and first: "buffers 0 \<noteq> buffers 1 \<longrightarrow>
              take 1 (filter on_stream (new_calls w w')) =
                [cudaMemcpyAsync (buffers 1) (Device (buffers 0))
                      (scast (SizeOfType t * getrf_batch g * getrf_n g * getrf_n g))
                      cudaMemcpyDeviceToDevice stream]"
    by blast
  show "\<exists>s w'. GetrfBatched_impl v stream buffers opaque w = Some (s, w')
         \<and> (buffers 0 = buffers 1 \<longrightarrow> filter is_device_copy (new_calls w w') = [])
         \<and> (buffers 0 \<noteq> buffers 1 \<longrightarrow>
              (\<exists>count.
                 filter is_device_copy (new_calls w w') =
                   [cudaMemcpyAsync (buffers 1) (Device (buffers 0)) count
                      cudaMemcpyDeviceToDevice stream]
                 \<and> take 1 (filter on_stream (new_calls w w')) =
                   [cudaMemcpyAsync (buffers 1) (Device (buffers 0)) count
                      cudaMemcpyDeviceToDevice stream]
                 \<and> (0 \<le> sint (SizeOfType t) * sint (getrf_batch g) * sint (getrf_n g)
                           * sint (getrf_n g)
                    \<and> sint (SizeOfType t) * sint (getrf_batch g) * sint (getrf_n g)
                           * sint (getrf_n g) < 2 ^ 31 \<longrightarrow>
                    uint count = sint (SizeOfType t) * sint (getrf_batch g) * sint (getrf_n g)
                                   * sint (getrf_n g))))"
  proof (intro exI [of _ s] exI [of _ w'] conjI impI)
    show "GetrfBatched_impl v stream buffers opaque w = Some (s, w')" by (rule run)
    show "filter is_device_copy (new_calls w w') = []" if "buffers 0 = buffers 1"
      using copies that by simp
    show "\<exists>count.
                 filter is_device_copy (new_calls w w') =
                   [cudaMemcpyAsync (buffers 1) (Device (buffers 0)) count
                      cudaMemcpyDeviceToDevice stream]
                 \<and> take 1 (filter on_stream (new_calls w w')) =
                   [cudaMemcpyAsync (buffers 1) (Device (buffers 0)) count
                      cudaMemcpyDeviceToDevice stream]
                 \<and> (0 \<le> sint (SizeOfType t) * sint (getrf_batch g) * sint (getrf_n g)
                           * sint (getrf_n g)
                    \<and> sint (SizeOfType t) * sint (getrf_batch g) * sint (getrf_n g)
                           * sint (getrf_n g) < 2 ^ 31 \<longrightarrow>
                    uint count = sint (SizeOfType t) * sint (getrf_batch g) * sint (getrf_n g)
                                   * sint (getrf_n g))"
      if "buffers 0 \<noteq> buffers 1"
    proof (intro exI [of _ "scast (SizeOfType t * getrf_batch g * getrf_n g * getrf_n g)"]
        conjI impI; (elim conjE)?)
      show "filter is_device_copy (new_calls w w') =
              [cudaMemcpyAsync (buffers 1) (Device (buffers 0))
                 (scast (SizeOfType t * getrf_batch g * getrf_n g * getrf_n g))
                 cudaMemcpyDeviceToDevice stream]"
        using copies that by simp
      show "take 1 (filter on_stream (new_calls w w')) =
              [cudaMemcpyAsync (buffers 1) (Device (buffers 0))
                 (scast (SizeOfType t * getrf_batch g * getrf_n g * getrf_n g))
                 cudaMemcpyDeviceToDevice stream]"
        using first that by simp
      assume "0 \<le> sint (SizeOfType t) * sint (getrf_batch g) * sint (getrf_n g) * sint (getrf_n g)"
        and "sint (SizeOfType t) * sint (getrf_batch g) * sint (getrf_n g) * sint (getrf_n g) < 2 ^ 31"
      then show "uint (scast (SizeOfType t * getrf_batch g * getrf_n g * getrf_n g) :: size_t)
          = sint (SizeOfType t) * sint (getrf_batch g) * sint (getrf_n g) * sint (getrf_n g)"
        by (rule copy_size_exact)
    qed
  qed
qed
text \<open>
  The property on the solve with separate buffers (one copy of 72 bytes, the first call
  on the stream) and on the factorisation in place (no copy).
\<close>

theorem staging_copy_iff_buffers_differ_witness:
  "UnpackDescriptor_Trsm (PackDescriptor_Trsm example_trsm) = Inr example_trsm
   \<and> UnpackDescriptor_Getrf (PackDescriptor_Getrf example_getrf) = Inr example_getrf
   \<and> \<not> isl (fst (Borrow ok_vendor 7 fresh_world))
   \<and> Type_of_int (trsm_type example_trsm) = Some F32
   \<and> Type_of_int (getrf_type example_getrf) = Some F32
   \<and> separate_buffers 2 \<noteq> separate_buffers 1
   \<and> (0 :: int) \<le> sint (SizeOfType F32) * sint (trsm_batch example_trsm)
                     * sint (trsm_m example_trsm) * sint (trsm_n example_trsm)
   \<and> sint (SizeOfType F32) * sint (trsm_batch example_trsm) * sint (trsm_m example_trsm)
       * sint (trsm_n example_trsm) < (2 :: int) ^ 31
   \<and> (\<exists>count.
        filter is_device_copy (new_calls fresh_world trsm_world)
          = [cudaMemcpyAsync 12288 (Device 8192) count cudaMemcpyDeviceToDevice 7]
        \<and> take 1 (filter on_stream (new_calls fresh_world trsm_world))
          = [cudaMemcpyAsync 12288 (Device 8192) count cudaMemcpyDeviceToDevice 7]
        \<and> uint count = 72)
   \<and> inplace_buffers 0 = inplace_buffers 1
   \<and> filter is_device_copy (new_calls fresh_world getrf_inplace_world) = []"
proof -
  have borrow: "\<not> isl (fst (Borrow ok_vendor 7 fresh_world))"
    by (simp add: Borrow_def vendor_call_def Let_def idle_def ok_vendor_def fresh_world_def)
  have types: "Type_of_int (trsm_type example_trsm) = Some F32"
    "Type_of_int (getrf_type example_getrf) = Some F32"
    by (simp_all add: Type_of_int_def example_trsm_def example_getrf_def)
  have buffers: "separate_buffers 2 \<noteq> separate_buffers 1" "inplace_buffers 0 = inplace_buffers 1"
    "separate_buffers 2 = 12288" "separate_buffers 1 = 8192"
    by (simp_all add: separate_buffers_def inplace_buffers_def)
  have fields: "trsm_batch example_trsm = 2" "trsm_m example_trsm = 3" "trsm_n example_trsm = 3"
    by (simp_all add: example_trsm_def)
  from staging_copy_iff_buffers_differ
      [where opaque = "PackDescriptor_Trsm example_trsm" and d = example_trsm and v = ok_vendor
        and stream = 7 and w = fresh_world and t = F32 and buffers = separate_buffers]
    staging_copy_iff_buffers_differ
      [where opaque = "PackDescriptor_Getrf example_getrf" and g = example_getrf and v = ok_vendor
        and stream = 7 and w = fresh_world and t = F32 and buffers = inplace_buffers]
  show ?thesis
    using borrow types buffers
    by (simp add: Unpack_Pack_Trsm Unpack_Pack_Getrf run_trsm run_getrf_inplace fields)
qed

text \<open>
  \<^bold>\<open>C5\<close>, as the claim states it, fails for an invocation that ends before the copy:
  with the input and the working buffer at different addresses, the solve given a
  descriptor of the wrong size and the factorisation whose \<^verbatim>\<open>cublasCreate\<close> fails return
  their error and issue no copy.
\<close>

theorem no_staging_copy_after_early_failure:
  "separate_buffers 2 \<noteq> separate_buffers 1
   \<and> TrsmBatched_impl ok_vendor 7 separate_buffers [] fresh_world
       = Some (InternalError Invalid_descriptor_size, fresh_world)
   \<and> filter is_device_copy (new_calls fresh_world fresh_world) = []
   \<and> separate_buffers 0 \<noteq> separate_buffers 1
   \<and> GetrfBatched_impl no_create_vendor 7 separate_buffers (PackDescriptor_Getrf example_getrf)
         fresh_world
       = Some (InternalError (Vendor_call_failed cublasCreate 1), create_failed_world)
   \<and> filter is_device_copy (new_calls fresh_world create_failed_world) = []"
  by (simp add: run_defs Unpack_Pack_Getrf UnpackDescriptor_Trsm_def
      sizeof_TrsmBatchedDescriptor_def example_defs create_failed_world_def new_calls_def)

text \<open>
  The bound on the product is needed: the code multiplies in \<^verbatim>\<open>int\<close>, and for 65536
  matrices of 128 by 128 \<^verbatim>\<open>double\<close>s, 8 GiB in all, the \<^verbatim>\<open>int\<close> product is not the
  number of bytes.
\<close>

lemma staging_copy_size_wraps:
  "sint (SizeOfType F64) * sint (65536 :: c_int) * sint (128 :: c_int) * sint (128 :: c_int)
     = 2 ^ 33
   \<and> (scast (SizeOfType F64 * 65536 * 128 * 128) :: size_t) = 0"
  by simp

section \<open>The scratch size\<close>

lemma scast_nonneg:
  fixes batch :: c_int
  assumes "0 \<le> sint batch"
  shows "(scast batch :: size_t) = of_nat (nat (sint batch))"
proof -
  have "(scast batch :: size_t) = word_of_int (sint batch)"
    by (rule scast_eq)
  also have "\<dots> = of_nat (nat (sint batch))"
    using assms by simp
  finally show ?thesis .
qed

lemma unat_scratch_size:
  fixes batch :: c_int
  assumes "0 \<le> sint batch"
  shows "unat (scast batch * sizeof_ptr) = 8 * nat (sint batch)"
proof -
  have "sint batch < 2 ^ 31"
    using sint_lt [of batch] by simp
  then have small: "nat (sint batch) * 8 < 2 ^ 34"
    using assms by simp
  have "(2::nat) ^ 34 \<le> 2 ^ 64"
    by (rule power_increasing) simp_all
  with small have lt: "nat (sint batch) * 8 < 2 ^ 64"
    by (rule less_le_trans)
  have "(scast batch * 8 :: size_t) = of_nat (nat (sint batch) * 8)"
    by (simp add: scast_nonneg [OF assms])
  then have "unat (scast batch * 8 :: size_t) = unat (of_nat (nat (sint batch) * 8) :: size_t)"
    by (rule arg_cong)
  also have "\<dots> = nat (sint batch) * 8"
    using lt by (intro of_nat_inverse [OF refl]) simp
  finally show ?thesis by (simp add: sizeof_ptr_def)
qed

text \<open>
  The bytes a copy of batch pointers writes, against the size the builders return: the
  same number when \<^verbatim>\<open>batch\<close> is not negative, and none at all otherwise.
\<close>

lemma batch_copy_fits:
  fixes batch :: c_int
  shows "unat (sizeof_ptr * of_nat (nat (sint batch))) \<le> unat (scast batch * sizeof_ptr)"
    and "0 \<le> sint batch \<Longrightarrow> sizeof_ptr * of_nat (nat (sint batch)) = scast batch * sizeof_ptr"
proof -
  show eq: "sizeof_ptr * of_nat (nat (sint batch)) = scast batch * sizeof_ptr" if "0 \<le> sint batch"
    by (simp add: scast_nonneg [OF that])
  show "unat (sizeof_ptr * of_nat (nat (sint batch))) \<le> unat (scast batch * sizeof_ptr)"
  proof (cases "0 \<le> sint batch")
    case True
    then show ?thesis by (simp only: eq)
  next
    case False
    then have "nat (sint batch) = 0" by simp
    then show ?thesis by simp
  qed
qed

lemma TrsmBatched_staged_host_copies:
  assumes "TrsmBatched_staged v stream buffers d t h w = (s, w')"
  shows "\<exists>cs. issued w' = issued w @ cs \<and> (\<forall>c \<in> set cs. on_stream c)
           \<and> (\<forall>c \<in> set (filter is_host_copy cs).
                 copy_size c = sizeof_ptr * of_nat (nat (sint (trsm_batch d))))
           \<and> length (filter is_host_copy cs) \<le> 2
           \<and> (s = OkStatus \<longrightarrow> length (filter is_host_copy cs) = 2)"
  using assms
  by (auto simp: TrsmBatched_staged_def MakeBatchPointers_def vendor_call_def Let_def
      split: if_splits prod.splits Status.splits sum.splits)

lemma GetrfBatched_staged_host_copies:
  assumes "GetrfBatched_staged v stream buffers d t h w = (s, w')"
  shows "\<exists>cs. issued w' = issued w @ cs \<and> (\<forall>c \<in> set cs. on_stream c)
           \<and> (\<forall>c \<in> set (filter is_host_copy cs).
                 copy_size c = sizeof_ptr * of_nat (nat (sint (getrf_batch d))))
           \<and> length (filter is_host_copy cs) \<le> 1
           \<and> (s = OkStatus \<longrightarrow> length (filter is_host_copy cs) = 1)"
  using assms
  by (auto simp: GetrfBatched_staged_def MakeBatchPointers_def vendor_call_def Let_def
      split: if_splits prod.splits Status.splits sum.splits)

lemma TrsmBatched_impl_host_copies:
  assumes run: "TrsmBatched_impl v stream buffers opaque w = Some (s, w')"
    and unpack: "UnpackDescriptor_Trsm opaque = Inr d"
  shows "(\<forall>c \<in> set (filter is_host_copy (new_calls w w')).
            copy_size c = sizeof_ptr * of_nat (nat (sint (trsm_batch d))))
       \<and> length (filter is_host_copy (new_calls w w')) \<le> 2
       \<and> (s = OkStatus \<longrightarrow> length (filter is_host_copy (new_calls w w')) = 2)"
  using run
proof (cases rule: TrsmBatched_impl_cases)
  case 1
  with unpack show ?thesis by simp
next
  case (2 d' e)
  from Borrow_log [OF 2(2)] obtain cs1 where
    cs1: "issued w' = issued w @ cs1" "\<forall>c \<in> set cs1. \<not> on_stream c" by blast
  have "filter is_host_copy (new_calls w w') = []"
    using cs1 not_on_stream_copy by (auto simp: filter_empty_conv)
  with 2(3) show ?thesis by simp
next
  case (3 d' h w1 t w2)
  with unpack have d: "d' = d" by simp
  from Borrow_log [OF 3(2)] obtain cs1 where
    cs1: "issued w1 = issued w @ cs1" "\<forall>c \<in> set cs1. \<not> on_stream c" by blast
  from TrsmBatched_staged_host_copies [OF 3(4)] obtain cs2 where
    cs2: "issued w2 = issued w1 @ cs2" "\<forall>c \<in> set cs2. on_stream c"
    and copies: "\<forall>c \<in> set (filter is_host_copy cs2).
                 copy_size c = sizeof_ptr * of_nat (nat (sint (trsm_batch d)))"
      "length (filter is_host_copy cs2) \<le> 2"
      "s = OkStatus \<longrightarrow> length (filter is_host_copy cs2) = 2"
    unfolding d by blast
  have "issued w' = issued w @ (cs1 @ cs2)"
    using 3(5) cs1(1) cs2(1) by simp
  then have "new_calls w w' = cs1 @ cs2"
    by (rule new_calls_append)
  then have "filter is_host_copy (new_calls w w') = filter is_host_copy cs2"
    by (simp only: filter_prepared(3) [OF cs1(2) cs2(2)])
  with copies show ?thesis by simp
qed

lemma GetrfBatched_impl_host_copies:
  assumes run: "GetrfBatched_impl v stream buffers opaque w = Some (s, w')"
    and unpack: "UnpackDescriptor_Getrf opaque = Inr d"
  shows "(\<forall>c \<in> set (filter is_host_copy (new_calls w w')).
            copy_size c = sizeof_ptr * of_nat (nat (sint (getrf_batch d))))
       \<and> length (filter is_host_copy (new_calls w w')) \<le> 1
       \<and> (s = OkStatus \<longrightarrow> length (filter is_host_copy (new_calls w w')) = 1)"
  using run
proof (cases rule: GetrfBatched_impl_cases)
  case 1
  with unpack show ?thesis by simp
next
  case (2 d' e)
  from Borrow_log [OF 2(2)] obtain cs1 where
    cs1: "issued w' = issued w @ cs1" "\<forall>c \<in> set cs1. \<not> on_stream c" by blast
  have "filter is_host_copy (new_calls w w') = []"
    using cs1 not_on_stream_copy by (auto simp: filter_empty_conv)
  with 2(3) show ?thesis by simp
next
  case (3 d' h w1 t w2)
  with unpack have d: "d' = d" by simp
  from Borrow_log [OF 3(2)] obtain cs1 where
    cs1: "issued w1 = issued w @ cs1" "\<forall>c \<in> set cs1. \<not> on_stream c" by blast
  from GetrfBatched_staged_host_copies [OF 3(4)] obtain cs2 where
    cs2: "issued w2 = issued w1 @ cs2" "\<forall>c \<in> set cs2. on_stream c"
    and copies: "\<forall>c \<in> set (filter is_host_copy cs2).
                 copy_size c = sizeof_ptr * of_nat (nat (sint (getrf_batch d)))"
      "length (filter is_host_copy cs2) \<le> 1"
      "s = OkStatus \<longrightarrow> length (filter is_host_copy cs2) = 1"
    unfolding d by blast
  have "issued w' = issued w @ (cs1 @ cs2)"
    using 3(5) cs1(1) cs2(1) by simp
  then have "new_calls w w' = cs1 @ cs2"
    by (rule new_calls_append)
  then have "filter is_host_copy (new_calls w w') = filter is_host_copy cs2"
    by (simp only: filter_prepared(3) [OF cs1(2) cs2(2)])
  with copies show ?thesis by simp
qed

text \<open>
  A builder returns exactly when \<^verbatim>\<open>DtypeToType\<close> knows the dtype, and what it returns
  then.
\<close>

lemma builders_return_iff:
  "isl (BuildTrsmBatchedDescriptor dtype batch m n left_side lower trans_a conj_a unit_diagonal)
     = isl (DtypeToType dtype)"
  "isl (BuildGetrfBatchedDescriptor dtype batch n) = isl (DtypeToType dtype)"
  by (simp_all add: BuildTrsmBatchedDescriptor_def BuildGetrfBatchedDescriptor_def Let_def
      split: sum.splits)

lemma BuildTrsmBatchedDescriptor_Inr:
  assumes "BuildTrsmBatchedDescriptor dtype batch m n left_side lower trans_a conj_a unit_diagonal
             = Inr (sz, opaque)"
  shows "sz = scast batch * sizeof_ptr"
    and "\<exists>d. UnpackDescriptor_Trsm opaque = Inr d \<and> trsm_batch d = batch"
  using assms
  by (auto simp: BuildTrsmBatchedDescriptor_def Let_def Unpack_Pack_Trsm split: sum.splits)

lemma BuildGetrfBatchedDescriptor_Inr:
  assumes "BuildGetrfBatchedDescriptor dtype batch n = Inr (sz, opaque)"
  shows "sz = scast batch * sizeof_ptr"
    and "\<exists>d. UnpackDescriptor_Getrf opaque = Inr d \<and> getrf_batch d = batch"
  using assms
  by (auto simp: BuildGetrfBatchedDescriptor_def Let_def Unpack_Pack_Getrf split: sum.splits)

text \<open>
  \<^bold>\<open>C8\<close>, as the code has it. A builder returns exactly for the dtypes
  \<^verbatim>\<open>DtypeToType\<close> knows. The size it returns with the packed descriptor is
  \<^verbatim>\<open>batch * sizeof(void*)\<close>, computed in \<^verbatim>\<open>size_t\<close>: 8 times \<^verbatim>\<open>batch\<close> when \<^verbatim>\<open>batch\<close> is
  not negative. A dispatcher run on that descriptor copies arrays of batch pointers
  to device memory, at most two for the solve and at most one for the factorisation
  (exactly two and one when the call succeeds), and no such copy is longer than the
  size returned; each has exactly that size when \<^verbatim>\<open>batch\<close> is not negative.
\<close>

theorem scratch_size_fits_batch_pointers:
  "isl (BuildTrsmBatchedDescriptor dtype batch m n left_side lower trans_a conj_a unit_diagonal)
     = isl (DtypeToType dtype)
   \<and> isl (BuildGetrfBatchedDescriptor dtype batch n) = isl (DtypeToType dtype)
   \<and> (BuildTrsmBatchedDescriptor dtype batch m n left_side lower trans_a conj_a unit_diagonal
      = Inr (sz, opaque) \<longrightarrow>
      sz = scast batch * sizeof_ptr
      \<and> (0 \<le> sint batch \<longrightarrow> unat sz = 8 * nat (sint batch))
      \<and> (TrsmBatched_impl v stream buffers opaque w = Some (s, w') \<longrightarrow>
           (\<forall>c \<in> set (filter is_host_copy (new_calls w w')).
              unat (copy_size c) \<le> unat sz \<and> (0 \<le> sint batch \<longrightarrow> copy_size c = sz))
           \<and> length (filter is_host_copy (new_calls w w')) \<le> 2
           \<and> (s = OkStatus \<longrightarrow> length (filter is_host_copy (new_calls w w')) = 2)))
   \<and> (BuildGetrfBatchedDescriptor dtype batch n = Inr (sz, opaque) \<longrightarrow>
      sz = scast batch * sizeof_ptr
      \<and> (0 \<le> sint batch \<longrightarrow> unat sz = 8 * nat (sint batch))
      \<and> (GetrfBatched_impl v stream buffers opaque w = Some (s, w') \<longrightarrow>
           (\<forall>c \<in> set (filter is_host_copy (new_calls w w')).
              unat (copy_size c) \<le> unat sz \<and> (0 \<le> sint batch \<longrightarrow> copy_size c = sz))
           \<and> length (filter is_host_copy (new_calls w w')) \<le> 1
           \<and> (s = OkStatus \<longrightarrow> length (filter is_host_copy (new_calls w w')) = 1)))"
proof (intro conjI impI ballI)
  show "isl (BuildTrsmBatchedDescriptor dtype batch m n left_side lower trans_a conj_a
      unit_diagonal) = isl (DtypeToType dtype)"
    by (rule builders_return_iff(1))
  show "isl (BuildGetrfBatchedDescriptor dtype batch n) = isl (DtypeToType dtype)"
    by (rule builders_return_iff(2))
next
  assume build: "BuildTrsmBatchedDescriptor dtype batch m n left_side lower trans_a conj_a
      unit_diagonal = Inr (sz, opaque)"
  note sz = BuildTrsmBatchedDescriptor_Inr(1) [OF build]
  from BuildTrsmBatchedDescriptor_Inr(2) [OF build] obtain d where
    d: "UnpackDescriptor_Trsm opaque = Inr d" "trsm_batch d = batch" by blast
  show "sz = scast batch * sizeof_ptr" by (rule sz)
  show "unat sz = 8 * nat (sint batch)" if "0 \<le> sint batch"
    unfolding sz using that by (rule unat_scratch_size)
  assume run: "TrsmBatched_impl v stream buffers opaque w = Some (s, w')"
  note copies = TrsmBatched_impl_host_copies [OF run d(1), unfolded d(2)]
  show "length (filter is_host_copy (new_calls w w')) \<le> 2"
    using copies by simp
  show "length (filter is_host_copy (new_calls w w')) = 2" if "s = OkStatus"
    using copies that by simp
  fix c assume "c \<in> set (filter is_host_copy (new_calls w w'))"
  with copies have c: "copy_size c = sizeof_ptr * of_nat (nat (sint batch))" by blast
  show "unat (copy_size c) \<le> unat sz"
    unfolding c sz by (rule batch_copy_fits(1))
  show "copy_size c = sz" if "0 \<le> sint batch"
    unfolding c sz using that by (rule batch_copy_fits(2))
next
  assume build: "BuildGetrfBatchedDescriptor dtype batch n = Inr (sz, opaque)"
  note sz = BuildGetrfBatchedDescriptor_Inr(1) [OF build]
  from BuildGetrfBatchedDescriptor_Inr(2) [OF build] obtain d where
    d: "UnpackDescriptor_Getrf opaque = Inr d" "getrf_batch d = batch" by blast
  show "sz = scast batch * sizeof_ptr" by (rule sz)
  show "unat sz = 8 * nat (sint batch)" if "0 \<le> sint batch"
    unfolding sz using that by (rule unat_scratch_size)
  assume run: "GetrfBatched_impl v stream buffers opaque w = Some (s, w')"
  note copies = GetrfBatched_impl_host_copies [OF run d(1), unfolded d(2)]
  show "length (filter is_host_copy (new_calls w w')) \<le> 1"
    using copies by simp
  show "length (filter is_host_copy (new_calls w w')) = 1" if "s = OkStatus"
    using copies that by simp
  fix c assume "c \<in> set (filter is_host_copy (new_calls w w'))"
  with copies have c: "copy_size c = sizeof_ptr * of_nat (nat (sint batch))" by blast
  show "unat (copy_size c) \<le> unat sz"
    unfolding c sz by (rule batch_copy_fits(1))
  show "copy_size c = sz" if "0 \<le> sint batch"
    unfolding c sz using that by (rule batch_copy_fits(2))
qed

text \<open>
  The property on the two examples: for a batch of 2 the builders return 16 bytes, and
  the dispatchers copy arrays of 16 bytes, two for the solve and one for the
  factorisation.
\<close>

theorem scratch_size_fits_batch_pointers_witness:
  "DtypeToType (CHR ''f'', 4) = Inr F32
   \<and> BuildTrsmBatchedDescriptor (CHR ''f'', 4) 2 3 3 True True False False False
     = Inr (16, PackDescriptor_Trsm example_trsm)
   \<and> BuildGetrfBatchedDescriptor (CHR ''f'', 4) 2 3 = Inr (16, PackDescriptor_Getrf example_getrf)
   \<and> (0 :: int) \<le> sint (2 :: c_int)
   \<and> unat (16 :: size_t) = 8 * nat (sint (2 :: c_int))
   \<and> TrsmBatched_impl ok_vendor 7 separate_buffers (PackDescriptor_Trsm example_trsm) fresh_world
       = Some (OkStatus, trsm_world)
   \<and> filter is_host_copy (new_calls fresh_world trsm_world)
       = [cudaMemcpyAsync 16384 (Host [4096, 4132]) 16 cudaMemcpyHostToDevice 7,
          cudaMemcpyAsync 20480 (Host [12288, 12324]) 16 cudaMemcpyHostToDevice 7]
   \<and> GetrfBatched_impl ok_vendor 7 separate_buffers (PackDescriptor_Getrf example_getrf) fresh_world
       = Some (OkStatus, getrf_world)
   \<and> filter is_host_copy (new_calls fresh_world getrf_world)
       = [cudaMemcpyAsync 20480 (Host [8192, 8228]) 16 cudaMemcpyHostToDevice 7]"
proof -
  have trsm: "BuildTrsmBatchedDescriptor (CHR ''f'', 4) 2 3 3 True True False False False
      = Inr (16, PackDescriptor_Trsm example_trsm)"
    by (simp add: BuildTrsmBatchedDescriptor_def DtypeToType_def Let_def sizeof_ptr_def
        example_trsm_def)
  have getrf: "BuildGetrfBatchedDescriptor (CHR ''f'', 4) 2 3
      = Inr (16, PackDescriptor_Getrf example_getrf)"
    by (simp add: BuildGetrfBatchedDescriptor_def DtypeToType_def Let_def sizeof_ptr_def
        example_getrf_def)
  from scratch_size_fits_batch_pointers
      [where dtype = "(CHR ''f'', 4)" and batch = 2 and m = 3 and n = 3 and left_side = True
        and lower = True and trans_a = False and conj_a = False and unit_diagonal = False
        and sz = 16 and opaque = "PackDescriptor_Trsm example_trsm" and v = ok_vendor
        and stream = 7 and buffers = separate_buffers and w = fresh_world and s = OkStatus
        and w' = trsm_world]
    scratch_size_fits_batch_pointers
      [where dtype = "(CHR ''f'', 4)" and batch = 2 and n = 3
        and sz = 16 and opaque = "PackDescriptor_Getrf example_getrf" and v = ok_vendor
        and stream = 7 and buffers = separate_buffers and w = fresh_world and s = OkStatus
        and w' = getrf_world]
  show ?thesis
    using trsm getrf run_trsm run_getrf
    by (simp add: trsm_world_def trsm_calls_def getrf_world_def DtypeToType_def)
qed

text \<open>
  \<^bold>\<open>C8\<close>, as the claim states it, fails for a dtype that is none of the four: for
  32-bit integers (kind \<open>i\<close>, item size 4) \<^verbatim>\<open>DtypeToType\<close> raises
  \<^verbatim>\<open>std::invalid_argument\<close> and neither builder returns a size.
\<close>

theorem builders_raise_for_unknown_dtype:
  "DtypeToType (CHR ''i'', 4) = Inl invalid_argument
   \<and> BuildTrsmBatchedDescriptor (CHR ''i'', 4) 2 3 3 True True False False False
       = Inl invalid_argument
   \<and> BuildGetrfBatchedDescriptor (CHR ''i'', 4) 2 3 = Inl invalid_argument"
  by (simp add: BuildTrsmBatchedDescriptor_def BuildGetrfBatchedDescriptor_def DtypeToType_def
      Let_def)

section \<open>What a dispatcher writes\<close>





















end
